theory Spec2Isabelle
  imports Complex_Main "HOL-Library.Word" "HOL-Library.Monad_Syntax"
begin

section \<open>Double-precision values\<close>

text \<open>
  The C++ type \<^verbatim>\<open>double\<close> is modelled by its IEEE-754 classes: finite values (a real
  number; \<open>Finite 0\<close> is the positive zero), the negative zero, the two infinities and
  NaN. The special values follow IEEE-754 (\<open>0/0\<close> is NaN, every ordered comparison with
  NaN is false, \<open>x/0\<close> is an infinity whose sign is the product of the signs). Finite
  arithmetic is exact: rounding and overflow of finite results are not represented.
\<close>

datatype double = Finite real | NegZero | PInf | NInf | NaN

fun val :: "double \<Rightarrow> real" where
  "val (Finite r) = r"
| "val d = 0"

fun is_finite :: "double \<Rightarrow> bool" where
  "is_finite (Finite r) = True"
| "is_finite NegZero = True"
| "is_finite d = False"

fun is_zero :: "double \<Rightarrow> bool" where
  "is_zero (Finite r) = (r = 0)"
| "is_zero NegZero = True"
| "is_zero d = False"

fun signbit :: "double \<Rightarrow> bool" where
  "signbit (Finite r) = (r < 0)"
| "signbit NegZero = True"
| "signbit NInf = True"
| "signbit d = False"

definition zero_of :: "bool \<Rightarrow> double" where
  "zero_of neg = (if neg then NegZero else Finite 0)"

definition inf_of :: "bool \<Rightarrow> double" where
  "inf_of neg = (if neg then NInf else PInf)"

text \<open>\<open>a - b\<close> in round-to-nearest: \<open>x - x\<close> is \<open>+0\<close>, and only \<open>-0 - +0\<close> is \<open>-0\<close>.\<close>

fun dsub :: "double \<Rightarrow> double \<Rightarrow> double" where
  "dsub NaN b = NaN"
| "dsub a NaN = NaN"
| "dsub PInf PInf = NaN"
| "dsub NInf NInf = NaN"
| "dsub PInf b = PInf"
| "dsub NInf b = NInf"
| "dsub a PInf = NInf"
| "dsub a NInf = PInf"
| "dsub NegZero (Finite r) = (if r = 0 then NegZero else Finite (- r))"
| "dsub a b = Finite (val a - val b)"

fun dabs :: "double \<Rightarrow> double" where
  "dabs (Finite r) = Finite \<bar>r\<bar>"
| "dabs NegZero = Finite 0"
| "dabs PInf = PInf"
| "dabs NInf = PInf"
| "dabs NaN = NaN"

definition ddiv :: "double \<Rightarrow> double \<Rightarrow> double" where
  "ddiv a b =
     (if a = NaN \<or> b = NaN then NaN
      else if \<not> is_finite a then
        (if \<not> is_finite b then NaN else inf_of (signbit a \<noteq> signbit b))
      else if \<not> is_finite b then zero_of (signbit a \<noteq> signbit b)
      else if is_zero b then
        (if is_zero a then NaN else inf_of (signbit a \<noteq> signbit b))
      else if is_zero a then zero_of (signbit a \<noteq> signbit b)
      else Finite (val a / val b))"

definition dmul :: "double \<Rightarrow> double \<Rightarrow> double" where
  "dmul a b =
     (if a = NaN \<or> b = NaN then NaN
      else if \<not> is_finite a \<or> \<not> is_finite b then
        (if is_zero a \<or> is_zero b then NaN else inf_of (signbit a \<noteq> signbit b))
      else if is_zero a \<or> is_zero b then zero_of (signbit a \<noteq> signbit b)
      else Finite (val a * val b))"

text \<open>The comparison \<open>a > b\<close>; false as soon as one side is NaN.\<close>

fun dgt :: "double \<Rightarrow> double \<Rightarrow> bool" where
  "dgt NaN b = False"
| "dgt a NaN = False"
| "dgt a PInf = False"
| "dgt PInf b = True"
| "dgt NInf b = False"
| "dgt a NInf = True"
| "dgt a b = (val a > val b)"

text \<open>The comparison \<open>a <= b\<close>; false as soon as one side is NaN.\<close>

fun dle :: "double \<Rightarrow> double \<Rightarrow> bool" where
  "dle NaN b = False"
| "dle a NaN = False"
| "dle a PInf = True"
| "dle PInf b = False"
| "dle NInf b = True"
| "dle a NInf = False"
| "dle a b = (val a \<le> val b)"


section \<open>The particle data set\<close>

text \<open>
  A \<^verbatim>\<open>vtkPolyData\<close> holds the points (three coordinates each) and named field-data
  arrays of tuples. \<^verbatim>\<open>GetArray\<close> returns a null pointer for a missing name, and reading
  a tuple or a component out of range reads foreign memory; both are the value \<open>None\<close>.
\<close>

type_synonym vec3 = "double \<times> double \<times> double"

record vtkPolyData =
  Points :: "double list list"
  FieldData :: "(string \<times> double list list) list"

definition GetArray :: "vtkPolyData \<Rightarrow> string \<Rightarrow> double list list option" where
  "GetArray pd name = map_of (FieldData pd) name"

definition GetTuple :: "double list list \<Rightarrow> nat \<Rightarrow> double list option" where
  "GetTuple arr i = (if i < length arr then Some (arr ! i) else None)"

definition GetPoint :: "vtkPolyData \<Rightarrow> nat \<Rightarrow> double list option" where
  "GetPoint pd i = (if i < length (Points pd) then Some (Points pd ! i) else None)"

definition component :: "double list \<Rightarrow> nat \<Rightarrow> double option" where
  "component t k = (if k < length t then Some (t ! k) else None)"

definition components3 :: "double list \<Rightarrow> vec3 option" where
  "components3 t =
     do { x \<leftarrow> component t 0; y \<leftarrow> component t 1; z \<leftarrow> component t 2; Some (x, y, z) }"

record cipAirwayParticleConnectedComponentFilter =
  InternalInputPolyData :: vtkPolyData
  ScaleRatioThreshold :: double
  ParticleDistanceThreshold :: double
  ParticleAngleThreshold :: double

text \<open>The three per-particle reads of \<^verbatim>\<open>EvaluateParticleConnectedness\<close>.\<close>

definition particle_scale ::
  "cipAirwayParticleConnectedComponentFilter \<Rightarrow> nat \<Rightarrow> double option" where
  "particle_scale this i =
     do { arr \<leftarrow> GetArray (InternalInputPolyData this) ''scale'';
          t \<leftarrow> GetTuple arr i;
          component t 0 }"

definition particle_point ::
  "cipAirwayParticleConnectedComponentFilter \<Rightarrow> nat \<Rightarrow> vec3 option" where
  "particle_point this i =
     do { t \<leftarrow> GetPoint (InternalInputPolyData this) i; components3 t }"

definition particle_hevec2 ::
  "cipAirwayParticleConnectedComponentFilter \<Rightarrow> nat \<Rightarrow> vec3 option" where
  "particle_hevec2 this i =
     do { arr \<leftarrow> GetArray (InternalInputPolyData this) ''hevec2'';
          t \<leftarrow> GetTuple arr i;
          components3 t }"

definition connectingVec :: "vec3 \<Rightarrow> vec3 \<Rightarrow> vec3" where
  "connectingVec point1 point2 =
     (case (point1, point2) of ((x1, y1, z1), (x2, y2, z2)) \<Rightarrow>
        (dsub x1 x2, dsub y1 y2, dsub z1 z2))"

text \<open>
  The scale test of lines 51-53: \<^verbatim>\<open>vcl_abs(scale1 - scale2)/maxScale\<close>, where
  \<^verbatim>\<open>maxScale\<close> is \<^verbatim>\<open>scale1\<close> when \<^verbatim>\<open>scale1 > scale2\<close> and \<^verbatim>\<open>scale2\<close> otherwise.
\<close>

definition scaleRatio :: "double \<Rightarrow> double \<Rightarrow> double" where
  "scaleRatio scale1 scale2 =
     (let maxScale = (if dgt scale1 scale2 then scale1 else scale2)
      in ddiv (dabs (dsub scale1 scale2)) maxScale)"

text \<open>
  \<^verbatim>\<open>EvaluateParticleConnectedness\<close>. The methods \<^verbatim>\<open>GetVectorMagnitude\<close> and
  \<^verbatim>\<open>GetAngleBetweenVectors\<close> belong to the base class, which is not part of the
  sources at hand; they are the parameters \<open>vectorMagnitude\<close> and
  \<open>angleBetweenVectors\<close>. The reads and the tests come in the order of the source: both
  scales, the scale test, both points, both eigenvectors, the distance test, the angle
  test.
\<close>

definition EvaluateParticleConnectedness ::
  "(vec3 \<Rightarrow> double) \<Rightarrow> (vec3 \<Rightarrow> vec3 \<Rightarrow> bool \<Rightarrow> double) \<Rightarrow>
   cipAirwayParticleConnectedComponentFilter \<Rightarrow> nat \<Rightarrow> nat \<Rightarrow> bool option" where
  "EvaluateParticleConnectedness vectorMagnitude angleBetweenVectors this
       particleIndex1 particleIndex2 =
     do {
       scale1 \<leftarrow> particle_scale this particleIndex1;
       scale2 \<leftarrow> particle_scale this particleIndex2;
       if dgt (scaleRatio scale1 scale2) (ScaleRatioThreshold this) then Some False
       else do {
         point1 \<leftarrow> particle_point this particleIndex1;
         point2 \<leftarrow> particle_point this particleIndex2;
         particle1Hevec2 \<leftarrow> particle_hevec2 this particleIndex1;
         particle2Hevec2 \<leftarrow> particle_hevec2 this particleIndex2;
         if dgt (vectorMagnitude (connectingVec point1 point2))
                (ParticleDistanceThreshold this)
         then Some False
         else
           let theta1 = angleBetweenVectors particle1Hevec2 (connectingVec point1 point2) True;
               theta2 = angleBetweenVectors particle2Hevec2 (connectingVec point1 point2) True
           in if dgt theta1 (ParticleAngleThreshold this)
                 \<or> dgt theta2 (ParticleAngleThreshold this)
              then Some False
              else Some True
       }
     }"

text \<open>
  Modelled from the spec: \<^verbatim>\<open>GetVectorMagnitude\<close> of the base class, which is missing
  from the sources. The spec rejects a pair when \<open>|v|\<close> exceeds the distance threshold,
  \<open>|v|\<close> being the length of the connecting vector.
\<close>

definition GetVectorMagnitude :: "vec3 \<Rightarrow> double" where
  "GetVectorMagnitude v =
     (case v of (x, y, z) \<Rightarrow>
        if x = NaN \<or> y = NaN \<or> z = NaN then NaN
        else if is_finite x \<and> is_finite y \<and> is_finite z
        then Finite (sqrt ((val x)\<^sup>2 + (val y)\<^sup>2 + (val z)\<^sup>2))
        else PInf)"

text \<open>
  Modelled from the spec: \<^verbatim>\<open>GetAngleBetweenVectors\<close> of the base class, which is
  missing from the sources. The spec describes the absolute angle between the two
  vectors, normalised into the range from 0 to 90 degrees because the sign of an
  eigenvector is arbitrary: the arc cosine of the absolute value of the normalised dot
  product. Without a direction (a zero or non-finite vector) the result is NaN.
\<close>

definition GetAngleBetweenVectors :: "vec3 \<Rightarrow> vec3 \<Rightarrow> bool \<Rightarrow> double" where
  "GetAngleBetweenVectors vec1 vec2 returnDegrees =
     (case (vec1, vec2) of ((x1, y1, z1), (x2, y2, z2)) \<Rightarrow>
        if is_finite x1 \<and> is_finite y1 \<and> is_finite z1
           \<and> is_finite x2 \<and> is_finite y2 \<and> is_finite z2
           \<and> GetVectorMagnitude vec1 \<noteq> Finite 0 \<and> GetVectorMagnitude vec2 \<noteq> Finite 0
        then
          let angle = arccos (\<bar>val x1 * val x2 + val y1 * val y2 + val z1 * val z2\<bar>
                        / (val (GetVectorMagnitude vec1) * val (GetVectorMagnitude vec2)))
          in Finite (if returnDegrees then 180 / pi * angle else angle)
        else NaN)"


section \<open>Streams, buffers and strings\<close>

text \<open>
  A \<^verbatim>\<open>std::ifstream\<close>: the characters not yet read and the two state bits the
  parsers depend on. A file that cannot be opened gives a stream with \<open>failbit\<close> set.
\<close>

record ifstream =
  content :: "char list"
  eofbit :: bool
  failbit :: bool

definition ifstream_open :: "char list option \<Rightarrow> ifstream" where
  "ifstream_open fileContent =
     (case fileContent of
        None \<Rightarrow> \<lparr>content = [], eofbit = False, failbit = True\<rparr>
      | Some cs \<Rightarrow> \<lparr>content = cs, eofbit = False, failbit = False\<rparr>)"

definition NUL :: char where
  "NUL = CHR 0x00"

definition newline :: char where
  "newline = CHR 0x0A"

definition comma :: char where
  "comma = CHR '',''"

text \<open>Writing characters and the terminating null at the start of a character array.\<close>

definition store_chars :: "char list \<Rightarrow> char list \<Rightarrow> char list" where
  "store_chars cs s = cs @ NUL # drop (Suc (length cs)) s"

text \<open>
  \<^verbatim>\<open>file.getline(s, n)\<close>. On a stream that is not good nothing is read, \<open>failbit\<close> is
  set and the array gets an empty string. Otherwise characters are stored until the end
  of the input (\<open>eofbit\<close>; and \<open>failbit\<close> when nothing was read), until a newline (which
  is consumed and not stored), or until \<open>n - 1\<close> characters are stored (\<open>failbit\<close>),
  the three tested in this order.
\<close>

definition getline :: "char list \<Rightarrow> nat \<Rightarrow> ifstream \<Rightarrow> char list \<times> ifstream" where
  "getline s n file =
     (if eofbit file \<or> failbit file then (store_chars [] s, file\<lparr>failbit := True\<rparr>)
      else
        let line = takeWhile (\<lambda>c. c \<noteq> newline) (content file);
            rest = dropWhile (\<lambda>c. c \<noteq> newline) (content file)
        in if length line < n then
             (case rest of
                [] \<Rightarrow> (store_chars line s,
                       file\<lparr>content := [], eofbit := True, failbit := (line = [])\<rparr>)
              | d # cs \<Rightarrow> (store_chars line s, file\<lparr>content := cs\<rparr>))
           else (store_chars (take (n - 1) line) s,
                 file\<lparr>content := drop (n - 1) (content file), failbit := True\<rparr>))"

text \<open>
  \<^verbatim>\<open>char wholeLine[100000]\<close> is not initialised: its first content is whatever the
  stack holds, the parameter \<open>garbage\<close>.
\<close>

definition uninitialized :: "(nat \<Rightarrow> char) \<Rightarrow> char list" where
  "uninitialized garbage = map garbage [0..<100000]"

text \<open>\<^verbatim>\<open>std::string strLine( wholeLine, 100000 )\<close> takes all 100000 characters of the
  array, also those behind the terminating null.\<close>

definition strLine_of :: "char list \<Rightarrow> char list" where
  "strLine_of wholeLine = take 100000 wholeLine"

text \<open>\<^verbatim>\<open>std::string::find(c, pos)\<close>; \<open>None\<close> is \<^verbatim>\<open>npos\<close>.\<close>

fun find_from :: "char \<Rightarrow> char list \<Rightarrow> nat \<Rightarrow> nat option" where
  "find_from c [] i = None"
| "find_from c (x # xs) i = (if x = c then Some i else find_from c xs (Suc i))"

definition str_find :: "char list \<Rightarrow> char \<Rightarrow> nat \<Rightarrow> nat option" where
  "str_find s c pos = find_from c (drop pos s) pos"

text \<open>
  The result of \<^verbatim>\<open>find\<close> is assigned to an \<^verbatim>\<open>unsigned int\<close>: \<^verbatim>\<open>npos\<close>, all bits set,
  becomes \<open>0xFFFFFFFF\<close>.
\<close>

definition to_uint :: "nat option \<Rightarrow> 32 word" where
  "to_uint r = (case r of None \<Rightarrow> - 1 | Some i \<Rightarrow> of_nat i)"

text \<open>
  \<^verbatim>\<open>std::string::substr(pos, n)\<close>. It throws when \<open>pos\<close> exceeds the size of the string;
  the parsers call it with 0 or with one more than a position found in the string, so
  that case does not arise.
\<close>

definition substr :: "char list \<Rightarrow> nat \<Rightarrow> nat \<Rightarrow> char list" where
  "substr s pos n = take n (drop pos s)"

text \<open>\<^verbatim>\<open>c_str()\<close> read as a C string: the characters before the first null.\<close>

definition c_str :: "char list \<Rightarrow> char list" where
  "c_str s = takeWhile (\<lambda>c. c \<noteq> NUL) s"

text \<open>
  The step the parsers repeat for every column but the first:
  \<^verbatim>\<open>commaLocNew = strLine.find( ',', commaLocOld+1 )\<close>, then the text
  \<^verbatim>\<open>strLine.substr( commaLocOld+1, commaLocNew-commaLocOld-1 ).c_str()\<close>, then
  \<^verbatim>\<open>commaLocOld = commaLocNew\<close>. The positions are \<^verbatim>\<open>unsigned int\<close>.
\<close>

definition read_field :: "char list \<Rightarrow> 32 word \<Rightarrow> char list \<times> 32 word" where
  "read_field strLine commaLocOld =
     (let commaLocNew = to_uint (str_find strLine comma (unat (commaLocOld + 1)))
      in (c_str (substr strLine (unat (commaLocOld + 1)) (unat (commaLocNew - commaLocOld - 1))),
          commaLocNew))"

section \<open>The parameter-file parsers\<close>

text \<open>
  The filter \<^verbatim>\<open>vtkCIPAirwayParticlesToGenerationLabeledAirwayParticlesFilter\<close> is not
  part of the sources at hand: the parsers' effect on it is the sequence of setter calls
  they make. Chest types are \<^verbatim>\<open>unsigned char\<close>.
\<close>

datatype call =
    SetScaleStandardDeviation "8 word" double
  | SetDistanceStandardDeviation "8 word" double
  | SetAngleStandardDeviation "8 word" double
  | SetScaleMean "8 word" double
  | SetDistanceMean "8 word" double
  | SetAngleMean "8 word" double
  | SetTransitionProbability "8 word" "8 word" double
  | SetNormalTransitionProbabilityMeansAndVariances "8 word" "8 word" double double double double

text \<open>
  \<^verbatim>\<open>ChestConventions\<close> (from \<^verbatim>\<open>cipConventions.h\<close>, not part of the sources at hand):
  the two members the parsers use.
\<close>

record ChestConventions =
  GetChestTypeValueFromName :: "char list \<Rightarrow> 8 word"
  GetNumberOfEnumeratedChestRegions :: int

subsection \<open>Emission probability statistics\<close>

text \<open>
  The body of the loop of \<^verbatim>\<open>SetEmissionProbabilityStatsFromFile\<close> for one line: the
  eight columns, then the six setter calls when the type is accepted; \<open>None\<close> stands for
  \<^verbatim>\<open>keepChecking = false\<close>. The first column is
  \<^verbatim>\<open>strLine.substr( 0, commaLocNew-commaLocOld+1 )\<close> with \<^verbatim>\<open>commaLocOld\<close> 0.
\<close>

definition emission_line ::
  "ChestConventions \<Rightarrow> (char list \<Rightarrow> double) \<Rightarrow> char list \<Rightarrow> call list option" where
  "emission_line conventions atof strLine =
     (let commaLocOld = (0 :: 32 word);
          commaLocNew = to_uint (str_find strLine comma 0);
          cipTypeName = c_str (substr strLine 0 (unat (commaLocNew - commaLocOld + 1)));
          (scaleDiffMean, commaLocOld) = read_field strLine commaLocNew;
          (scaleDiffSTD, commaLocOld) = read_field strLine commaLocOld;
          (distanceMean, commaLocOld) = read_field strLine commaLocOld;
          (distanceSTD, commaLocOld) = read_field strLine commaLocOld;
          (angleMean, commaLocOld) = read_field strLine commaLocOld;
          (angleSTD, commaLocOld) = read_field strLine commaLocOld;
          (numSamples, commaLocOld) = read_field strLine commaLocOld;
          cipType = GetChestTypeValueFromName conventions cipTypeName
      in if 0 < uint cipType \<and> uint cipType < GetNumberOfEnumeratedChestRegions conventions
         then Some [SetScaleStandardDeviation cipType (atof scaleDiffSTD),
                    SetDistanceStandardDeviation cipType (atof distanceSTD),
                    SetAngleStandardDeviation cipType (atof angleSTD),
                    SetScaleMean cipType (atof scaleDiffMean),
                    SetDistanceMean cipType (atof distanceMean),
                    SetAngleMean cipType (atof angleMean)]
         else None)"

text \<open>
  The \<^verbatim>\<open>do ... while ( !file.eof() && keepChecking )\<close> loop. The result is the list of
  setter calls made so far; the function has no value where the loop does not end.
\<close>

partial_function (option) emission_loop ::
  "ChestConventions \<Rightarrow> (char list \<Rightarrow> double) \<Rightarrow> char list \<Rightarrow> ifstream \<Rightarrow> call list
   \<Rightarrow> call list option" where
  "emission_loop conventions atof wholeLine file calls =
     (case getline wholeLine 100000 file of (wholeLine', file') \<Rightarrow>
        if \<not> eofbit file' then
          (case emission_line conventions atof (strLine_of wholeLine') of
             Some cs \<Rightarrow> emission_loop conventions atof wholeLine' file' (calls @ cs)
           | None \<Rightarrow> Some calls)
        else Some calls)"

definition SetEmissionProbabilityStatsFromFile ::
  "ChestConventions \<Rightarrow> (char list \<Rightarrow> double) \<Rightarrow> (nat \<Rightarrow> char) \<Rightarrow> call list
   \<Rightarrow> char list option \<Rightarrow> call list option" where
  "SetEmissionProbabilityStatsFromFile conventions atof garbage particlesToGenLabeledParticles
       fileContent =
     (case getline (uninitialized garbage) 100000 (ifstream_open fileContent) of
        (wholeLine, file) \<Rightarrow>
          emission_loop conventions atof wholeLine file particlesToGenLabeledParticles)"


subsection \<open>Transition probabilities\<close>

text \<open>
  The inner loop of \<^verbatim>\<open>SetTransitionProbabilitiesFromFile\<close>, \<^verbatim>\<open>j\<close> from its current
  value up to 10. For \<^verbatim>\<open>j==0\<close> the text is
  \<^verbatim>\<open>strLine.substr( 0, commaLocNew-commaLocOld+1 )\<close>, which ends with the comma.
\<close>

function transition_columns ::
  "(char list \<Rightarrow> double) \<Rightarrow> char list \<Rightarrow> 8 word \<Rightarrow> nat \<Rightarrow> 32 word \<Rightarrow> call list
   \<Rightarrow> call list" where
  "transition_columns atof strLine fromType j commaLocOld calls =
     (if j \<le> 10 then
        let toType = (of_nat j + 38 :: 8 word);
            (probText, commaLocNew) =
              (if j = 0 then
                 let commaLocNew = to_uint (str_find strLine comma 0)
                 in (c_str (substr strLine 0 (unat (commaLocNew - commaLocOld + 1))),
                     commaLocNew)
               else read_field strLine commaLocOld)
        in transition_columns atof strLine fromType (Suc j) commaLocNew
             (calls @ [SetTransitionProbability fromType toType (atof probText)])
      else calls)"
  by pat_completeness auto
termination
  by (relation "measure (\<lambda>(atof, strLine, fromType, j, commaLocOld, calls). 11 - j)") auto

text \<open>The outer loop, \<^verbatim>\<open>i\<close> from its current value up to 10: one \<^verbatim>\<open>getline\<close> for each
  row, whatever the state of the stream.\<close>

function transition_rows ::
  "(char list \<Rightarrow> double) \<Rightarrow> nat \<Rightarrow> char list \<Rightarrow> ifstream \<Rightarrow> call list \<Rightarrow> call list" where
  "transition_rows atof i wholeLine file calls =
     (if i \<le> 10 then
        let fromType = (of_nat i + 38 :: 8 word)
        in case getline wholeLine 100000 file of (wholeLine', file') \<Rightarrow>
             transition_rows atof (Suc i) wholeLine' file'
               (transition_columns atof (strLine_of wholeLine') fromType 0 0 calls)
      else calls)"
  by pat_completeness auto
termination
  by (relation "measure (\<lambda>(atof, i, wholeLine, file, calls). 11 - i)") auto

definition SetTransitionProbabilitiesFromFile ::
  "(char list \<Rightarrow> double) \<Rightarrow> (nat \<Rightarrow> char) \<Rightarrow> call list \<Rightarrow> char list option \<Rightarrow> call list" where
  "SetTransitionProbabilitiesFromFile atof garbage particlesToGenLabeledParticles fileContent =
     transition_rows atof 0 (uninitialized garbage) (ifstream_open fileContent)
       particlesToGenLabeledParticles"

subsection \<open>Transition probability statistics\<close>

text \<open>
  The body of the loop of \<^verbatim>\<open>SetTransitionProbabilityStatsFromFile\<close> for one line. The
  first column is \<^verbatim>\<open>strLine.substr( 0, commaLocNew-commaLocOld )\<close> with
  \<^verbatim>\<open>commaLocOld\<close> 0. The lines written to \<^verbatim>\<open>std::cout\<close> are left out.
\<close>

definition transition_stats_line ::
  "ChestConventions \<Rightarrow> (char list \<Rightarrow> double) \<Rightarrow> char list \<Rightarrow> call list" where
  "transition_stats_line conventions atof strLine =
     (let commaLocOld = (0 :: 32 word);
          commaLocNew = to_uint (str_find strLine comma 0);
          fromTypeName = c_str (substr strLine 0 (unat (commaLocNew - commaLocOld)));
          (toTypeName, commaLocOld) = read_field strLine commaLocNew;
          (scaleDiffMean, commaLocOld) = read_field strLine commaLocOld;
          (scaleDiffSTD, commaLocOld) = read_field strLine commaLocOld;
          (angleMean, commaLocOld) = read_field strLine commaLocOld;
          (angleSTD, commaLocOld) = read_field strLine commaLocOld;
          (numSamples, commaLocOld) = read_field strLine commaLocOld;
          fromType = GetChestTypeValueFromName conventions fromTypeName;
          toType = GetChestTypeValueFromName conventions toTypeName;
          scaleDiffVar = dmul (atof scaleDiffSTD) (atof scaleDiffSTD);
          angleVar = dmul (atof angleSTD) (atof angleSTD)
      in if dgt (atof numSamples) (Finite 10)
         then [SetNormalTransitionProbabilityMeansAndVariances fromType toType
                 (atof scaleDiffMean) scaleDiffVar (atof angleMean) angleVar]
         else [])"

text \<open>The \<^verbatim>\<open>do ... while ( !file.eof() )\<close> loop.\<close>

partial_function (option) transition_stats_loop ::
  "ChestConventions \<Rightarrow> (char list \<Rightarrow> double) \<Rightarrow> char list \<Rightarrow> ifstream \<Rightarrow> call list
   \<Rightarrow> call list option" where
  "transition_stats_loop conventions atof wholeLine file calls =
     (case getline wholeLine 100000 file of (wholeLine', file') \<Rightarrow>
        if \<not> eofbit file' then
          transition_stats_loop conventions atof wholeLine' file'
            (calls @ transition_stats_line conventions atof (strLine_of wholeLine'))
        else Some calls)"

definition SetTransitionProbabilityStatsFromFile ::
  "ChestConventions \<Rightarrow> (char list \<Rightarrow> double) \<Rightarrow> (nat \<Rightarrow> char) \<Rightarrow> call list
   \<Rightarrow> char list option \<Rightarrow> call list option" where
  "SetTransitionProbabilityStatsFromFile conventions atof garbage particlesToGenLabeledParticles
       fileContent =
     (case getline (uninitialized garbage) 100000 (ifstream_open fileContent) of
        (wholeLine, file) \<Rightarrow>
          transition_stats_loop conventions atof wholeLine file particlesToGenLabeledParticles)"

subsection \<open>The confusion matrix of the diagnostic mode\<close>

text \<open>
  The matrix of \<^verbatim>\<open>main\<close>: \<^verbatim>\<open>unsigned int\<close> counters, built by the two loops
  \<^verbatim>\<open>i<10\<close> and \<^verbatim>\<open>j<10\<close>.
\<close>

definition confusionMatrix_init :: "32 word list list" where
  "confusionMatrix_init = map (\<lambda>i. map (\<lambda>j. 0) [0..<10]) [0..<10]"

text \<open>
  \<^verbatim>\<open>confusionMatrix[inType-38][outType-38] += 1\<close>. The operands are promoted to
  \<^verbatim>\<open>int\<close>; an index outside the vector is an access outside its storage, the value
  \<open>None\<close>.
\<close>

definition confusionMatrix_count ::
  "32 word list list \<Rightarrow> 8 word \<Rightarrow> 8 word \<Rightarrow> 32 word list list option" where
  "confusionMatrix_count confusionMatrix inType outType =
     (let i = uint inType - 38; j = uint outType - 38
      in if 0 \<le> i \<and> i < int (length confusionMatrix) then
           let row = confusionMatrix ! nat i
           in if 0 \<le> j \<and> j < int (length row)
              then Some (confusionMatrix[nat i := row[nat j := row ! nat j + 1]])
              else None
         else None)"

text \<open>The loop over the particles, given each particle's input and output label.\<close>

fun confusionMatrix_fill ::
  "32 word list list \<Rightarrow> (8 word \<times> 8 word) list \<Rightarrow> 32 word list list option" where
  "confusionMatrix_fill confusionMatrix [] = Some confusionMatrix"
| "confusionMatrix_fill confusionMatrix ((inType, outType) # particles) =
     (case confusionMatrix_count confusionMatrix inType outType of
        None \<Rightarrow> None
      | Some m \<Rightarrow> confusionMatrix_fill m particles)"

text \<open>The numbers printed under the confusion-matrix banner: the loops \<^verbatim>\<open>i<10\<close>,
  \<^verbatim>\<open>j<10\<close>, one output line for each \<^verbatim>\<open>i\<close>.\<close>

definition confusionMatrix_print :: "32 word list list \<Rightarrow> 32 word list list" where
  "confusionMatrix_print confusionMatrix =
     map (\<lambda>i. map (\<lambda>j. confusionMatrix ! i ! j) [0..<10]) [0..<10]"

definition printDiceScores_confusionMatrix ::
  "(8 word \<times> 8 word) list \<Rightarrow> 32 word list list option" where
  "printDiceScores_confusionMatrix particles =
     map_option confusionMatrix_print (confusionMatrix_fill confusionMatrix_init particles)"

declare transition_columns.simps [simp del] transition_rows.simps [simp del]

section \<open>Well-formed parameter files\<close>

text \<open>
  The files the theorems speak about are written down from their rows: a row is a list
  of columns, joined by commas and, as a line of the file, ended by a newline. A plain
  column contains no comma, no newline and no null character; a plain row has at least
  the given number of plain columns and fits the line buffer of 100000 characters.
\<close>

fun join_fields :: "char list list \<Rightarrow> char list" where
  "join_fields [] = []"
| "join_fields [f] = f"
| "join_fields (f # g # fs) = f @ comma # join_fields (g # fs)"

definition text_line :: "char list list \<Rightarrow> char list" where
  "text_line fs = join_fields fs @ [newline]"

definition field_start :: "char list list \<Rightarrow> nat \<Rightarrow> nat" where
  "field_start fs k = length (concat (map (\<lambda>f. f @ [comma]) (take k fs)))"

definition plain_field :: "char list \<Rightarrow> bool" where
  "plain_field f = (comma \<notin> set f \<and> NUL \<notin> set f \<and> newline \<notin> set f)"

definition plain_row :: "nat \<Rightarrow> char list list \<Rightarrow> bool" where
  "plain_row n fs =
     (n \<le> length fs \<and> (\<forall>f \<in> set fs. plain_field f) \<and> length (join_fields fs) < 100000)"

text \<open>
  What \<^verbatim>\<open>SetEmissionProbabilityStatsFromFile\<close> does with a plain row of at least
  seven columns: the name it looks up is the first column with the comma that follows
  it, the row is accepted when the type code found passes the test of the source, and
  an accepted row gives the six setter calls.
\<close>

definition emission_accepts :: "ChestConventions \<Rightarrow> char list list \<Rightarrow> bool" where
  "emission_accepts conventions fs =
     (let cipType = GetChestTypeValueFromName conventions (fs ! 0 @ [comma])
      in 0 < uint cipType \<and> uint cipType < GetNumberOfEnumeratedChestRegions conventions)"

definition emission_calls ::
  "ChestConventions \<Rightarrow> (char list \<Rightarrow> double) \<Rightarrow> char list list \<Rightarrow> call list" where
  "emission_calls conventions atof fs =
     (let cipType = GetChestTypeValueFromName conventions (fs ! 0 @ [comma])
      in [SetScaleStandardDeviation cipType (atof (fs ! 2)),
          SetDistanceStandardDeviation cipType (atof (fs ! 4)),
          SetAngleStandardDeviation cipType (atof (fs ! 6)),
          SetScaleMean cipType (atof (fs ! 1)),
          SetDistanceMean cipType (atof (fs ! 3)),
          SetAngleMean cipType (atof (fs ! 5))])"

text \<open>
  What \<^verbatim>\<open>SetTransitionProbabilityStatsFromFile\<close> does with a plain row of at least
  seven columns: one call, with the squares of the two standard deviations, when the
  sample count is greater than 10, and no call otherwise.
\<close>

definition transition_stats_calls ::
  "ChestConventions \<Rightarrow> (char list \<Rightarrow> double) \<Rightarrow> char list list \<Rightarrow> call list" where
  "transition_stats_calls conventions atof fs =
     (if dgt (atof (fs ! 6)) (Finite 10)
      then [SetNormalTransitionProbabilityMeansAndVariances
              (GetChestTypeValueFromName conventions (fs ! 0))
              (GetChestTypeValueFromName conventions (fs ! 1))
              (atof (fs ! 2)) (dmul (atof (fs ! 3)) (atof (fs ! 3)))
              (atof (fs ! 4)) (dmul (atof (fs ! 5)) (atof (fs ! 5)))]
      else [])"

text \<open>
  What \<^verbatim>\<open>SetTransitionProbabilitiesFromFile\<close> does with row \<open>i\<close> of the grid, a plain
  row of at least eleven columns: eleven calls; the text converted for column 0 ends
  with the comma that follows the column.
\<close>

definition transition_row_calls ::
  "(char list \<Rightarrow> double) \<Rightarrow> nat \<Rightarrow> char list list \<Rightarrow> call list" where
  "transition_row_calls atof i fs =
     map (\<lambda>j. SetTransitionProbability (of_nat i + 38) (of_nat j + 38)
                (atof (if j = 0 then fs ! 0 @ [comma] else fs ! j))) [0..<11]"

fun transition_types :: "call \<Rightarrow> (8 word \<times> 8 word) option" where
  "transition_types (SetTransitionProbability fromType toType prob) = Some (fromType, toType)"
| "transition_types c = None"




section \<open>The store of transition probabilities\<close>

text \<open>
  Modelled from the spec: the direct transition probabilities of the probability model
  store, which belongs to the filter class missing from the sources. The spec describes
  a mapping from a pair (from label, to label) to a probability value, set by
  \<^verbatim>\<open>SetTransitionProbability\<close> and returned unchanged by \<open>transitionLikelihood\<close> in
  direct-probability mode.
\<close>

fun store_transition ::
  "call \<Rightarrow> (8 word \<times> 8 word \<Rightarrow> double option) \<Rightarrow> (8 word \<times> 8 word \<Rightarrow> double option)" where
  "store_transition (SetTransitionProbability fromType toType prob) m =
     m((fromType, toType) \<mapsto> prob)"
| "store_transition c m = m"

definition transition_probabilities :: "call list \<Rightarrow> 8 word \<times> 8 word \<Rightarrow> double option" where
  "transition_probabilities calls = fold store_transition calls Map.empty"

definition transitionLikelihood_direct ::
  "call list \<Rightarrow> 8 word \<Rightarrow> 8 word \<Rightarrow> double option" where
  "transitionLikelihood_direct calls fromLabel toLabel =
     transition_probabilities calls (fromLabel, toLabel)"

section \<open>Example data\<close>

text \<open>
  Three particles on the x axis, at 0, 1 and 3, with minor eigenvectors along the axis;
  the first two have scale 0, the third scale 2.
\<close>

definition example_polydata :: vtkPolyData where
  "example_polydata =
     \<lparr>Points = [[Finite 0, Finite 0, Finite 0], [Finite 1, Finite 0, Finite 0],
                [Finite 3, Finite 0, Finite 0]],
      FieldData = [(''scale'', [[Finite 0], [Finite 0], [Finite 2]]),
                   (''hevec2'', [[Finite 1, Finite 0, Finite 0], [Finite 1, Finite 0, Finite 0],
                                 [Finite 1, Finite 0, Finite 0]])]\<rparr>"

definition example_filter :: cipAirwayParticleConnectedComponentFilter where
  "example_filter =
     \<lparr>InternalInputPolyData = example_polydata, ScaleRatioThreshold = Finite 1,
      ParticleDistanceThreshold = Finite 2, ParticleAngleThreshold = Finite 20\<rparr>"

text \<open>
  Two particles of scales 1 and 3 in a data set that has a \<open>scale\<close> array and nothing
  else: no points and no \<open>hevec2\<close> array.
\<close>

definition scale_only_polydata :: vtkPolyData where
  "scale_only_polydata =
     \<lparr>Points = [], FieldData = [(''scale'', [[Finite 1], [Finite 3]])]\<rparr>"

definition scale_only_filter :: cipAirwayParticleConnectedComponentFilter where
  "scale_only_filter =
     \<lparr>InternalInputPolyData = scale_only_polydata, ScaleRatioThreshold = Finite (1 / 2),
      ParticleDistanceThreshold = Finite 2, ParticleAngleThreshold = Finite 20\<rparr>"

text \<open>
  For the examples, \<^verbatim>\<open>atof\<close> on texts that start with an unsigned decimal integer: the
  value of the leading digits, 0 when there is none.
\<close>

fun digits_value :: "nat \<Rightarrow> char list \<Rightarrow> nat" where
  "digits_value acc [] = acc"
| "digits_value acc (c # cs) =
     (if 48 \<le> (of_char c :: nat) \<and> (of_char c :: nat) \<le> 57
      then digits_value (10 * acc + (of_char c - 48)) cs else acc)"

definition example_atof :: "char list \<Rightarrow> double" where
  "example_atof s = Finite (real (digits_value 0 s))"

text \<open>
  Modelled from the spec: \<^verbatim>\<open>ChestConventions\<close> as a fixed naming table. A chest-type
  name is resolved to the numeric type code the table gives for exactly that name; a
  name that is not in the table gives 0, the undefined type.
\<close>

definition table_lookup :: "(char list \<times> 8 word) list \<Rightarrow> char list \<Rightarrow> 8 word" where
  "table_lookup table name = (case map_of table name of None \<Rightarrow> 0 | Some t \<Rightarrow> t)"

definition table_conventions :: "(char list \<times> 8 word) list \<Rightarrow> int \<Rightarrow> ChestConventions" where
  "table_conventions table n =
     \<lparr>GetChestTypeValueFromName = table_lookup table,
      GetNumberOfEnumeratedChestRegions = n\<rparr>"

text \<open>For the examples, a naming table with four named types.\<close>

definition example_names :: "(char list \<times> 8 word) list" where
  "example_names = [(''AIRWAYGENERATION0'', 38), (''AIRWAYGENERATION1'', 39),
                    (''AIRWAYGENERATION2'', 40), (''AIRWAYGENERATION3'', 41)]"

definition example_conventions :: ChestConventions where
  "example_conventions = table_conventions example_names 60"

text \<open>A line buffer that happens to hold null characters only.\<close>

definition zero_garbage :: "nat \<Rightarrow> char" where
  "zero_garbage i = NUL"

definition example_stats_rows :: "char list list list" where
  "example_stats_rows =
     [[''UNKNOWN'', ''NAMES'', ''1'', ''2'', ''3'', ''4'', ''11''],
      [''AIRWAYGENERATION0'', ''AIRWAYGENERATION1'', ''5'', ''6'', ''7'', ''8'', ''10''],
      [''AIRWAYGENERATION1'', ''AIRWAYGENERATION2'', ''9'', ''2'', ''8'', ''3'', ''12'']]"

text \<open>An 11 by 11 grid of transition probabilities: every type stays what it is.\<close>

definition example_grid :: "char list list list" where
  "example_grid =
     [[''1'', ''0'', ''0'', ''0'', ''0'', ''0'', ''0'', ''0'', ''0'', ''0'', ''0''],
      [''0'', ''1'', ''0'', ''0'', ''0'', ''0'', ''0'', ''0'', ''0'', ''0'', ''0''],
      [''0'', ''0'', ''1'', ''0'', ''0'', ''0'', ''0'', ''0'', ''0'', ''0'', ''0''],
      [''0'', ''0'', ''0'', ''1'', ''0'', ''0'', ''0'', ''0'', ''0'', ''0'', ''0''],
      [''0'', ''0'', ''0'', ''0'', ''1'', ''0'', ''0'', ''0'', ''0'', ''0'', ''0''],
      [''0'', ''0'', ''0'', ''0'', ''0'', ''1'', ''0'', ''0'', ''0'', ''0'', ''0''],
      [''0'', ''0'', ''0'', ''0'', ''0'', ''0'', ''1'', ''0'', ''0'', ''0'', ''0''],
      [''0'', ''0'', ''0'', ''0'', ''0'', ''0'', ''0'', ''1'', ''0'', ''0'', ''0''],
      [''0'', ''0'', ''0'', ''0'', ''0'', ''0'', ''0'', ''0'', ''1'', ''0'', ''0''],
      [''0'', ''0'', ''0'', ''0'', ''0'', ''0'', ''0'', ''0'', ''0'', ''1'', ''0''],
      [''0'', ''0'', ''0'', ''0'', ''0'', ''0'', ''0'', ''0'', ''0'', ''0'', ''1'']]"

section \<open>Properties of the connectivity test\<close>

lemma dle_iff_not_dgt: "a \<noteq> NaN \<Longrightarrow> b \<noteq> NaN \<Longrightarrow> dle a b = (\<not> dgt a b)"
  by (cases a; cases b) auto

lemma scaleRatio_both_zero: "is_zero a \<Longrightarrow> is_zero b \<Longrightarrow> scaleRatio a b = NaN"
  by (cases a; cases b) (auto simp: scaleRatio_def ddiv_def Let_def)

lemma scaleRatio_sym: "scaleRatio a b = scaleRatio b a"
  by (cases a; cases b) (auto simp: scaleRatio_def ddiv_def zero_of_def inf_of_def Let_def)

lemma EvaluateParticleConnectedness_present:
  assumes "particle_scale this i = Some s1" "particle_scale this j = Some s2"
    "particle_point this i = Some p1" "particle_point this j = Some p2"
    "particle_hevec2 this i = Some h1" "particle_hevec2 this j = Some h2"
  shows "EvaluateParticleConnectedness mag ang this i j =
     Some (\<not> dgt (scaleRatio s1 s2) (ScaleRatioThreshold this)
         \<and> \<not> dgt (mag (connectingVec p1 p2)) (ParticleDistanceThreshold this)
         \<and> \<not> dgt (ang h1 (connectingVec p1 p2) True) (ParticleAngleThreshold this)
         \<and> \<not> dgt (ang h2 (connectingVec p1 p2) True) (ParticleAngleThreshold this))"
  using assms by (simp add: EvaluateParticleConnectedness_def Let_def)

text \<open>Swapping the two points negates the connecting vector, up to the sign of zeros.\<close>

lemma dsub_NaN_sym: "dsub a b = NaN \<longleftrightarrow> dsub b a = NaN"
  by (cases a; cases b) auto

lemma dsub_finite_sym: "is_finite (dsub a b) = is_finite (dsub b a)"
  by (cases a; cases b) auto

lemma dsub_val_sym: "val (dsub a b) = - val (dsub b a)"
  by (cases a; cases b) auto

lemma GetVectorMagnitude_sym:
  "GetVectorMagnitude (connectingVec p q) = GetVectorMagnitude (connectingVec q p)"
proof -
  obtain x1 y1 z1 where p: "p = (x1, y1, z1)" by (cases p)
  obtain x2 y2 z2 where q: "q = (x2, y2, z2)" by (cases q)
  show ?thesis
    unfolding p q connectingVec_def GetVectorMagnitude_def
    using dsub_NaN_sym[of x1 x2] dsub_NaN_sym[of y1 y2] dsub_NaN_sym[of z1 z2]
      dsub_finite_sym[of x1 x2] dsub_finite_sym[of y1 y2] dsub_finite_sym[of z1 z2]
      dsub_val_sym[of x1 x2] dsub_val_sym[of y1 y2] dsub_val_sym[of z1 z2]
    by simp
qed

lemma GetAngleBetweenVectors_sym:
  "GetAngleBetweenVectors h (connectingVec p q) d = GetAngleBetweenVectors h (connectingVec q p) d"
proof -
  obtain x1 y1 z1 where p: "p = (x1, y1, z1)" by (cases p)
  obtain x2 y2 z2 where q: "q = (x2, y2, z2)" by (cases q)
  obtain a b c where h: "h = (a, b, c)" by (cases h)
  have m: "GetVectorMagnitude (dsub x1 x2, dsub y1 y2, dsub z1 z2)
      = GetVectorMagnitude (dsub x2 x1, dsub y2 y1, dsub z2 z1)"
    using GetVectorMagnitude_sym[of p q] by (simp add: p q connectingVec_def)
  have dot: "\<bar>val a * val (dsub x1 x2) + val b * val (dsub y1 y2) + val c * val (dsub z1 z2)\<bar>
      = \<bar>val a * val (dsub x2 x1) + val b * val (dsub y2 y1) + val c * val (dsub z2 z1)\<bar>"
    using dsub_val_sym[of x1 x2] dsub_val_sym[of y1 y2] dsub_val_sym[of z1 z2] by simp
  show ?thesis
    unfolding p q h connectingVec_def GetAngleBetweenVectors_def
    using dsub_finite_sym[of x1 x2] dsub_finite_sym[of y1 y2] dsub_finite_sym[of z1 z2] m dot
    by simp
qed

text \<open>The example data, read the way the connectivity test reads it.\<close>

lemma example_scale:
  "particle_scale example_filter 0 = Some (Finite 0)"
  "particle_scale example_filter 1 = Some (Finite 0)"
  "particle_scale example_filter 2 = Some (Finite 2)"
  by (simp_all add: particle_scale_def example_filter_def example_polydata_def GetArray_def
      GetTuple_def component_def)

lemma example_point:
  "particle_point example_filter 0 = Some (Finite 0, Finite 0, Finite 0)"
  "particle_point example_filter 1 = Some (Finite 1, Finite 0, Finite 0)"
  "particle_point example_filter 2 = Some (Finite 3, Finite 0, Finite 0)"
  by (simp_all add: particle_point_def example_filter_def example_polydata_def GetPoint_def
      components3_def component_def)

lemma example_hevec2:
  "particle_hevec2 example_filter 0 = Some (Finite 1, Finite 0, Finite 0)"
  "particle_hevec2 example_filter 1 = Some (Finite 1, Finite 0, Finite 0)"
  "particle_hevec2 example_filter 2 = Some (Finite 1, Finite 0, Finite 0)"
  by (simp_all add: particle_hevec2_def example_filter_def example_polydata_def GetArray_def
      GetTuple_def components3_def component_def)

lemma example_thresholds:
  "ScaleRatioThreshold example_filter = Finite 1"
  "ParticleDistanceThreshold example_filter = Finite 2"
  "ParticleAngleThreshold example_filter = Finite 20"
  by (simp_all add: example_filter_def)

lemma example_magnitude:
  "GetVectorMagnitude (connectingVec (Finite 0, Finite 0, Finite 0) (Finite 1, Finite 0, Finite 0))
     = Finite 1"
  "GetVectorMagnitude (connectingVec (Finite 1, Finite 0, Finite 0) (Finite 0, Finite 0, Finite 0))
     = Finite 1"
  "GetVectorMagnitude (connectingVec (Finite 1, Finite 0, Finite 0) (Finite 3, Finite 0, Finite 0))
     = Finite 2"
  "GetVectorMagnitude (connectingVec (Finite 0, Finite 0, Finite 0) (Finite 3, Finite 0, Finite 0))
     = Finite 3"
  by (simp_all add: GetVectorMagnitude_def connectingVec_def)

lemma example_angle:
  "GetAngleBetweenVectors (Finite 1, Finite 0, Finite 0)
     (connectingVec (Finite 0, Finite 0, Finite 0) (Finite 1, Finite 0, Finite 0)) True = Finite 0"
  "GetAngleBetweenVectors (Finite 1, Finite 0, Finite 0)
     (connectingVec (Finite 1, Finite 0, Finite 0) (Finite 0, Finite 0, Finite 0)) True = Finite 0"
  "GetAngleBetweenVectors (Finite 1, Finite 0, Finite 0)
     (connectingVec (Finite 1, Finite 0, Finite 0) (Finite 3, Finite 0, Finite 0)) True = Finite 0"
  by (simp_all add: GetAngleBetweenVectors_def GetVectorMagnitude_def connectingVec_def)

lemma example_ratio:
  "scaleRatio (Finite 0) (Finite 0) = NaN"
  "scaleRatio (Finite 0) (Finite 2) = Finite 1"
  by (simp_all add: scaleRatio_def ddiv_def)

lemma example_scale_only:
  "particle_scale scale_only_filter 0 = Some (Finite 1)"
  "particle_scale scale_only_filter 1 = Some (Finite 3)"
  "particle_point scale_only_filter 0 = None"
  "particle_hevec2 scale_only_filter 0 = None"
  "ScaleRatioThreshold scale_only_filter = Finite (1 / 2)"
  "scaleRatio (Finite 1) (Finite 3) = Finite (2 / 3)"
  by (simp_all add: particle_scale_def particle_point_def particle_hevec2_def
      scale_only_filter_def scale_only_polydata_def GetArray_def GetTuple_def GetPoint_def
      components3_def component_def scaleRatio_def ddiv_def)

lemma EvaluateParticleConnectedness_scale_rejects:
  assumes "particle_scale this i = Some s1" "particle_scale this j = Some s2"
    and "dgt (scaleRatio s1 s2) (ScaleRatioThreshold this)"
  shows "EvaluateParticleConnectedness mag ang this i j = Some False"
  using assms by (simp add: EvaluateParticleConnectedness_def)

text \<open>
  C1, as the code has it. The three tests are applied in the order scale, distance, angle,
  and the first one that fires gives the result false. When the scale ratio is greater
  than \<^verbatim>\<open>ScaleRatioThreshold\<close>, the result is false as soon as the two scales can be
  read: the positions and the \<open>hevec2\<close> data are not looked at. When the
  data of both particles can be read and the scale test does not fire, a magnitude of the
  connecting vector greater than \<^verbatim>\<open>ParticleDistanceThreshold\<close> gives false whatever the
  angles are; when neither of the two fires, an angle greater than
  \<^verbatim>\<open>ParticleAngleThreshold\<close> gives false; and when no test fires the result is true. When
  none of the compared values is NaN, the result is true exactly when the three criteria
  \<open>ratio <= threshold\<close>, \<open>magnitude <= threshold\<close> and \<open>angles <= threshold\<close> all
  pass.
\<close>

theorem connectedness_criteria:
  assumes "particle_scale this i = Some s1" and "particle_scale this j = Some s2"
  shows "(dgt (scaleRatio s1 s2) (ScaleRatioThreshold this) \<longrightarrow>
            EvaluateParticleConnectedness mag ang this i j = Some False)
       \<and> (particle_point this i = Some p1 \<and> particle_point this j = Some p2
          \<and> particle_hevec2 this i = Some h1 \<and> particle_hevec2 this j = Some h2 \<longrightarrow>
            (\<not> dgt (scaleRatio s1 s2) (ScaleRatioThreshold this)
             \<and> dgt (mag (connectingVec p1 p2)) (ParticleDistanceThreshold this) \<longrightarrow>
               EvaluateParticleConnectedness mag ang this i j = Some False)
          \<and> (\<not> dgt (scaleRatio s1 s2) (ScaleRatioThreshold this)
             \<and> \<not> dgt (mag (connectingVec p1 p2)) (ParticleDistanceThreshold this)
             \<and> (dgt (ang h1 (connectingVec p1 p2) True) (ParticleAngleThreshold this)
                \<or> dgt (ang h2 (connectingVec p1 p2) True) (ParticleAngleThreshold this)) \<longrightarrow>
               EvaluateParticleConnectedness mag ang this i j = Some False)
          \<and> (\<not> dgt (scaleRatio s1 s2) (ScaleRatioThreshold this)
             \<and> \<not> dgt (mag (connectingVec p1 p2)) (ParticleDistanceThreshold this)
             \<and> \<not> dgt (ang h1 (connectingVec p1 p2) True) (ParticleAngleThreshold this)
             \<and> \<not> dgt (ang h2 (connectingVec p1 p2) True) (ParticleAngleThreshold this) \<longrightarrow>
               EvaluateParticleConnectedness mag ang this i j = Some True)
          \<and> (NaN \<notin> {scaleRatio s1 s2, ScaleRatioThreshold this, mag (connectingVec p1 p2),
                     ParticleDistanceThreshold this, ang h1 (connectingVec p1 p2) True,
                     ang h2 (connectingVec p1 p2) True, ParticleAngleThreshold this} \<longrightarrow>
               EvaluateParticleConnectedness mag ang this i j =
                 Some (dle (scaleRatio s1 s2) (ScaleRatioThreshold this)
                     \<and> dle (mag (connectingVec p1 p2)) (ParticleDistanceThreshold this)
                     \<and> dle (ang h1 (connectingVec p1 p2) True) (ParticleAngleThreshold this)
                     \<and> dle (ang h2 (connectingVec p1 p2) True) (ParticleAngleThreshold this))))"
proof (intro conjI impI)
  assume "dgt (scaleRatio s1 s2) (ScaleRatioThreshold this)"
  then show "EvaluateParticleConnectedness mag ang this i j = Some False"
    by (rule EvaluateParticleConnectedness_scale_rejects[OF assms])
next
  assume r: "particle_point this i = Some p1 \<and> particle_point this j = Some p2
      \<and> particle_hevec2 this i = Some h1 \<and> particle_hevec2 this j = Some h2"
  note e = EvaluateParticleConnectedness_present[OF assms, of p1 p2 h1 h2 mag ang]
  {
    assume "\<not> dgt (scaleRatio s1 s2) (ScaleRatioThreshold this)
             \<and> dgt (mag (connectingVec p1 p2)) (ParticleDistanceThreshold this)"
    with e r show "EvaluateParticleConnectedness mag ang this i j = Some False" by simp
  next
    assume "\<not> dgt (scaleRatio s1 s2) (ScaleRatioThreshold this)
             \<and> \<not> dgt (mag (connectingVec p1 p2)) (ParticleDistanceThreshold this)
             \<and> (dgt (ang h1 (connectingVec p1 p2) True) (ParticleAngleThreshold this)
                \<or> dgt (ang h2 (connectingVec p1 p2) True) (ParticleAngleThreshold this))"
    with e r show "EvaluateParticleConnectedness mag ang this i j = Some False" by auto
  next
    assume "\<not> dgt (scaleRatio s1 s2) (ScaleRatioThreshold this)
             \<and> \<not> dgt (mag (connectingVec p1 p2)) (ParticleDistanceThreshold this)
             \<and> \<not> dgt (ang h1 (connectingVec p1 p2) True) (ParticleAngleThreshold this)
             \<and> \<not> dgt (ang h2 (connectingVec p1 p2) True) (ParticleAngleThreshold this)"
    with e r show "EvaluateParticleConnectedness mag ang this i j = Some True" by simp
  next
    assume "NaN \<notin> {scaleRatio s1 s2, ScaleRatioThreshold this, mag (connectingVec p1 p2),
                     ParticleDistanceThreshold this, ang h1 (connectingVec p1 p2) True,
                     ang h2 (connectingVec p1 p2) True, ParticleAngleThreshold this}"
    with e r show "EvaluateParticleConnectedness mag ang this i j =
                 Some (dle (scaleRatio s1 s2) (ScaleRatioThreshold this)
                     \<and> dle (mag (connectingVec p1 p2)) (ParticleDistanceThreshold this)
                     \<and> dle (ang h1 (connectingVec p1 p2) True) (ParticleAngleThreshold this)
                     \<and> dle (ang h2 (connectingVec p1 p2) True) (ParticleAngleThreshold this))"
      by (auto simp: dle_iff_not_dgt)
  }
qed

theorem connectedness_criteria_witness:
  "particle_scale scale_only_filter 0 = Some (Finite 1)
   \<and> particle_scale scale_only_filter 1 = Some (Finite 3)
   \<and> particle_point scale_only_filter 0 = None
   \<and> particle_hevec2 scale_only_filter 0 = None
   \<and> dgt (scaleRatio (Finite 1) (Finite 3)) (ScaleRatioThreshold scale_only_filter)
   \<and> EvaluateParticleConnectedness GetVectorMagnitude GetAngleBetweenVectors scale_only_filter 0 1
       = Some False
   \<and> particle_scale example_filter 1 = Some (Finite 0)
   \<and> particle_scale example_filter 2 = Some (Finite 2)
   \<and> particle_point example_filter 1 = Some (Finite 1, Finite 0, Finite 0)
   \<and> particle_point example_filter 2 = Some (Finite 3, Finite 0, Finite 0)
   \<and> particle_hevec2 example_filter 1 = Some (Finite 1, Finite 0, Finite 0)
   \<and> particle_hevec2 example_filter 2 = Some (Finite 1, Finite 0, Finite 0)
   \<and> EvaluateParticleConnectedness GetVectorMagnitude GetAngleBetweenVectors example_filter 1 2
       = Some True
   \<and> dle (scaleRatio (Finite 0) (Finite 2)) (Finite 1)
   \<and> dle (GetVectorMagnitude (connectingVec (Finite 1, Finite 0, Finite 0)
            (Finite 3, Finite 0, Finite 0))) (Finite 2)
   \<and> dle (GetAngleBetweenVectors (Finite 1, Finite 0, Finite 0)
            (connectingVec (Finite 1, Finite 0, Finite 0) (Finite 3, Finite 0, Finite 0)) True)
          (Finite 20)
   \<and> particle_scale example_filter 0 = Some (Finite 0)
   \<and> particle_point example_filter 0 = Some (Finite 0, Finite 0, Finite 0)
   \<and> particle_hevec2 example_filter 0 = Some (Finite 1, Finite 0, Finite 0)
   \<and> \<not> dgt (scaleRatio (Finite 0) (Finite 2)) (ScaleRatioThreshold example_filter)
   \<and> dgt (GetVectorMagnitude (connectingVec (Finite 0, Finite 0, Finite 0)
            (Finite 3, Finite 0, Finite 0))) (ParticleDistanceThreshold example_filter)
   \<and> EvaluateParticleConnectedness GetVectorMagnitude GetAngleBetweenVectors example_filter 0 2
       = Some False"
  using connectedness_criteria[OF example_scale_only(1) example_scale_only(2),
      where mag = GetVectorMagnitude and ang = GetAngleBetweenVectors]
    connectedness_criteria[OF example_scale(2) example_scale(3),
      where mag = GetVectorMagnitude and ang = GetAngleBetweenVectors
        and ?p1.0 = "(Finite 1, Finite 0, Finite 0)" and ?p2.0 = "(Finite 3, Finite 0, Finite 0)"
        and ?h1.0 = "(Finite 1, Finite 0, Finite 0)" and ?h2.0 = "(Finite 1, Finite 0, Finite 0)"]
    connectedness_criteria[OF example_scale(1) example_scale(3),
      where mag = GetVectorMagnitude and ang = GetAngleBetweenVectors
        and ?p1.0 = "(Finite 0, Finite 0, Finite 0)" and ?p2.0 = "(Finite 3, Finite 0, Finite 0)"
        and ?h1.0 = "(Finite 1, Finite 0, Finite 0)" and ?h2.0 = "(Finite 1, Finite 0, Finite 0)"]
  by (simp add: example_scale_only example_scale example_point example_hevec2 example_thresholds
      example_magnitude example_angle example_ratio del: One_nat_def)


text \<open>
  C1 as stated fails where a compared value is NaN: the first two example particles have
  scale 0, so the scale ratio is \<open>0/0\<close>, which is not \<open><=\<close> the threshold, and yet the
  function returns true.
\<close>

theorem connectedness_criteria_counterexample:
  "\<not> (EvaluateParticleConnectedness GetVectorMagnitude GetAngleBetweenVectors example_filter 0 1
        = Some True
      \<longleftrightarrow> dle (scaleRatio (Finite 0) (Finite 0)) (ScaleRatioThreshold example_filter)
        \<and> dle (GetVectorMagnitude (connectingVec (Finite 0, Finite 0, Finite 0)
                 (Finite 1, Finite 0, Finite 0))) (ParticleDistanceThreshold example_filter)
        \<and> dle (GetAngleBetweenVectors (Finite 1, Finite 0, Finite 0)
                 (connectingVec (Finite 0, Finite 0, Finite 0) (Finite 1, Finite 0, Finite 0)) True)
               (ParticleAngleThreshold example_filter)
        \<and> dle (GetAngleBetweenVectors (Finite 1, Finite 0, Finite 0)
                 (connectingVec (Finite 0, Finite 0, Finite 0) (Finite 1, Finite 0, Finite 0)) True)
               (ParticleAngleThreshold example_filter))"
  using EvaluateParticleConnectedness_present[OF example_scale(1) example_scale(2)
      example_point(1) example_point(2) example_hevec2(1) example_hevec2(2),
      of GetVectorMagnitude GetAngleBetweenVectors]
  by (simp add: example_thresholds example_magnitude example_angle example_ratio)

text \<open>
  C2. The connectivity test is symmetric, \<open>isConnected(i,j) = isConnected(j,i)\<close>, for every
  pair of indices, also where data is missing. The two base-class methods are taken to
  give the same magnitude and the same angle for the connecting vector of a pair and of
  the swapped pair; the methods as the spec describes them do so.
\<close>

theorem connectedness_symmetric:
  assumes "\<forall>p q. mag (connectingVec p q) = mag (connectingVec q p)"
    and "\<forall>h p q. ang h (connectingVec p q) True = ang h (connectingVec q p) True"
  shows "EvaluateParticleConnectedness mag ang this i j
       = EvaluateParticleConnectedness mag ang this j i"
proof (cases "particle_scale this i")
  case None
  then show ?thesis
    by (cases "particle_scale this j") (simp_all add: EvaluateParticleConnectedness_def)
next
  case si: (Some s1)
  show ?thesis
  proof (cases "particle_scale this j")
    case None
    with si show ?thesis by (simp add: EvaluateParticleConnectedness_def)
  next
    case sj: (Some s2)
    show ?thesis
    proof (cases "dgt (scaleRatio s1 s2) (ScaleRatioThreshold this)")
      case True
      with si sj scaleRatio_sym[of s1 s2] show ?thesis
        by (simp add: EvaluateParticleConnectedness_def)
    next
      case False
      have m: "mag (connectingVec p q) = mag (connectingVec q p)" for p q
        using assms(1) by blast
      have a: "ang h (connectingVec p q) True = ang h (connectingVec q p) True" for h p q
        using assms(2) by blast
      from False si sj scaleRatio_sym[of s1 s2] show ?thesis
        by (cases "particle_point this i"; cases "particle_point this j";
            cases "particle_hevec2 this i"; cases "particle_hevec2 this j")
           (auto simp: EvaluateParticleConnectedness_def Let_def m[symmetric] a[symmetric])
    qed
  qed
qed

theorem connectedness_symmetric_witness:
  "(\<forall>p q. GetVectorMagnitude (connectingVec p q) = GetVectorMagnitude (connectingVec q p))
   \<and> (\<forall>h p q. GetAngleBetweenVectors h (connectingVec p q) True
              = GetAngleBetweenVectors h (connectingVec q p) True)
   \<and> EvaluateParticleConnectedness GetVectorMagnitude GetAngleBetweenVectors example_filter 0 2
     = EvaluateParticleConnectedness GetVectorMagnitude GetAngleBetweenVectors example_filter 2 0"
proof -
  have m: "\<forall>p q. GetVectorMagnitude (connectingVec p q) = GetVectorMagnitude (connectingVec q p)"
    using GetVectorMagnitude_sym by blast
  have a: "\<forall>h p q. GetAngleBetweenVectors h (connectingVec p q) True
              = GetAngleBetweenVectors h (connectingVec q p) True"
    using GetAngleBetweenVectors_sym by blast
  show ?thesis
    using m a connectedness_symmetric[where mag = GetVectorMagnitude
        and ang = GetAngleBetweenVectors and this = example_filter and i = 0 and j = 2, OF m a]
    by blast
qed

text \<open>
  C3. When the magnitude of the connecting vector of two particles (their data being
  readable) is greater than \<^verbatim>\<open>ParticleDistanceThreshold\<close>, the result is false, whatever
  the scales and the angles.
\<close>

theorem distance_above_threshold_rejects:
  assumes "particle_scale this i = Some s1" and "particle_scale this j = Some s2"
    and "particle_point this i = Some p1" and "particle_point this j = Some p2"
    and "particle_hevec2 this i = Some h1" and "particle_hevec2 this j = Some h2"
    and "dgt (mag (connectingVec p1 p2)) (ParticleDistanceThreshold this)"
  shows "EvaluateParticleConnectedness mag ang this i j = Some False"
  using EvaluateParticleConnectedness_present[OF assms(1-6), of mag ang] assms(7) by simp

theorem distance_above_threshold_rejects_witness:
  "particle_scale example_filter 0 = Some (Finite 0)
   \<and> particle_scale example_filter 2 = Some (Finite 2)
   \<and> particle_point example_filter 0 = Some (Finite 0, Finite 0, Finite 0)
   \<and> particle_point example_filter 2 = Some (Finite 3, Finite 0, Finite 0)
   \<and> particle_hevec2 example_filter 0 = Some (Finite 1, Finite 0, Finite 0)
   \<and> particle_hevec2 example_filter 2 = Some (Finite 1, Finite 0, Finite 0)
   \<and> dgt (GetVectorMagnitude (connectingVec (Finite 0, Finite 0, Finite 0)
            (Finite 3, Finite 0, Finite 0))) (ParticleDistanceThreshold example_filter)
   \<and> EvaluateParticleConnectedness GetVectorMagnitude GetAngleBetweenVectors example_filter 0 2
     = Some False"
proof -
  have d: "dgt (GetVectorMagnitude (connectingVec (Finite 0, Finite 0, Finite 0)
            (Finite 3, Finite 0, Finite 0))) (ParticleDistanceThreshold example_filter)"
    by (simp add: example_magnitude example_thresholds)
  show ?thesis
    using d distance_above_threshold_rejects[where mag = GetVectorMagnitude
        and ang = GetAngleBetweenVectors, OF example_scale(1) example_scale(3)
        example_point(1) example_point(3) example_hevec2(1) example_hevec2(3) d]
    by (simp add: example_scale example_point example_hevec2)
qed

text \<open>
  C4 as stated fails: the second and first example particles both have scale 0, and the
  function does not return false for them.
\<close>

theorem zero_scales_counterexample:
  "particle_scale example_filter 1 = Some (Finite 0)
   \<and> particle_scale example_filter 0 = Some (Finite 0)
   \<and> EvaluateParticleConnectedness GetVectorMagnitude GetAngleBetweenVectors example_filter 1 0
     \<noteq> Some False"
  using EvaluateParticleConnectedness_present[OF example_scale(2) example_scale(1)
      example_point(2) example_point(1) example_hevec2(2) example_hevec2(1),
      of GetVectorMagnitude GetAngleBetweenVectors]
  by (simp add: example_scale example_thresholds example_magnitude example_angle example_ratio
      del: One_nat_def)

text \<open>
  C4, as the code has it. For two particles whose scales are both zero the scale ratio is
  the NaN of \<open>0/0\<close>; the scale test does not reject the pair, and the result is that of the
  distance test and the angle test alone.
\<close>

theorem zero_scales_pass_scale_test:
  assumes "particle_scale this i = Some s1" and "particle_scale this j = Some s2"
    and "particle_point this i = Some p1" and "particle_point this j = Some p2"
    and "particle_hevec2 this i = Some h1" and "particle_hevec2 this j = Some h2"
    and "is_zero s1" and "is_zero s2"
  shows "scaleRatio s1 s2 = NaN
       \<and> EvaluateParticleConnectedness mag ang this i j =
           Some (\<not> dgt (mag (connectingVec p1 p2)) (ParticleDistanceThreshold this)
               \<and> \<not> dgt (ang h1 (connectingVec p1 p2) True) (ParticleAngleThreshold this)
               \<and> \<not> dgt (ang h2 (connectingVec p1 p2) True) (ParticleAngleThreshold this))"
  using EvaluateParticleConnectedness_present[OF assms(1-6), of mag ang]
    scaleRatio_both_zero[OF assms(7,8)]
  by simp

theorem zero_scales_pass_scale_test_witness:
  "particle_scale example_filter 0 = Some (Finite 0)
   \<and> particle_scale example_filter 1 = Some (Finite 0)
   \<and> particle_point example_filter 0 = Some (Finite 0, Finite 0, Finite 0)
   \<and> particle_point example_filter 1 = Some (Finite 1, Finite 0, Finite 0)
   \<and> particle_hevec2 example_filter 0 = Some (Finite 1, Finite 0, Finite 0)
   \<and> particle_hevec2 example_filter 1 = Some (Finite 1, Finite 0, Finite 0)
   \<and> is_zero (Finite 0)
   \<and> EvaluateParticleConnectedness GetVectorMagnitude GetAngleBetweenVectors example_filter 0 1
     = Some True"
proof -
  have z: "is_zero (Finite 0)" by simp
  show ?thesis
    using zero_scales_pass_scale_test[where mag = GetVectorMagnitude
        and ang = GetAngleBetweenVectors, OF example_scale(1) example_scale(2) example_point(1)
        example_point(2) example_hevec2(1) example_hevec2(2) z z]
    by (simp add: example_scale example_point example_hevec2 example_thresholds
        example_magnitude example_angle del: One_nat_def)
qed

section \<open>Properties of the parsers\<close>

subsection \<open>Searching and cutting strings\<close>

lemma chars_distinct [simp]: "comma \<noteq> NUL" "NUL \<noteq> comma" "comma \<noteq> newline" "newline \<noteq> comma"
  "NUL \<noteq> newline" "newline \<noteq> NUL"
  by (simp_all add: comma_def NUL_def newline_def)

lemma find_from_bounds: "find_from c xs i = Some j \<Longrightarrow> i \<le> j \<and> j < i + length xs"
  by (induction xs arbitrary: i) (auto split: if_splits, fastforce+)

text \<open>The position handed to \<^verbatim>\<open>substr\<close> never exceeds the size of the string.\<close>

lemma substr_position_in_range:
  assumes "length s < 4294967295"
  shows "unat (to_uint (str_find s comma p) + 1) \<le> length s"
proof (cases "str_find s comma p")
  case None
  then show ?thesis by (simp add: to_uint_def)
next
  case (Some j)
  then have "j < p + length (drop p s)"
    using find_from_bounds[of comma "drop p s" p j] by (simp add: str_find_def)
  moreover have "drop p s \<noteq> []" using Some by (auto simp: str_find_def)
  ultimately have j: "j < length s" by simp
  then have b: "Suc j < 4294967296" using assms by simp
  have e: "(of_nat j :: 32 word) + 1 = of_nat (Suc j)" by simp
  have u: "unat (of_nat (Suc j) :: 32 word) = Suc j"
    by (subst unat_of_nat) (use b in simp)
  show ?thesis unfolding Some to_uint_def option.case e u using j by simp
qed

lemma find_from_append_hit:
  "c \<notin> set f \<Longrightarrow> find_from c (f @ c # r) i = Some (i + length f)"
  by (induction f arbitrary: i) auto

lemma find_from_append_miss:
  "c \<notin> set f \<Longrightarrow> find_from c (f @ r) i = find_from c r (i + length f)"
  by (induction f arbitrary: i) auto

lemma c_str_plain: "NUL \<notin> set f \<Longrightarrow> c_str (f @ NUL # r) = f"
  by (induction f) (auto simp: c_str_def)

lemma c_str_plain': "NUL \<notin> set f \<Longrightarrow> c_str f = f"
  by (induction f) (auto simp: c_str_def)

subsection \<open>The columns of a joined row\<close>

lemma join_fields_split:
  "k < length fs \<Longrightarrow>
   join_fields fs = concat (map (\<lambda>f. f @ [comma]) (take k fs)) @ fs ! k @
     (if Suc k < length fs then comma # join_fields (drop (Suc k) fs) else [])"
proof (induction fs arbitrary: k rule: join_fields.induct)
  case 1
  then show ?case by simp
next
  case (2 f)
  then show ?case by simp
next
  case (3 f g fs)
  show ?case
  proof (cases k)
    case 0
    then show ?thesis by simp
  next
    case (Suc k')
    with 3 show ?thesis by simp
  qed
qed

lemma join_fields_no_newline: "\<forall>f \<in> set fs. newline \<notin> set f \<Longrightarrow> newline \<notin> set (join_fields fs)"
  by (induction fs rule: join_fields.induct) auto

lemma field_start_Suc:
  "k < length fs \<Longrightarrow> field_start fs (Suc k) = field_start fs k + length (fs ! k) + 1"
  by (simp add: field_start_def take_Suc_conv_app_nth)

lemma field_start_0 [simp]: "field_start fs 0 = 0"
  by (simp add: field_start_def)

lemma field_end_le:
  "k < length fs \<Longrightarrow> field_start fs k + length (fs ! k) \<le> length (join_fields fs)"
  using join_fields_split[of k fs] by (simp add: field_start_def)

subsection \<open>Positions held in an unsigned int\<close>

lemma unat_of_nat_32: "n < 4294967296 \<Longrightarrow> unat (of_nat n :: 32 word) = n"
  by (simp add: unat_of_nat)

lemma field_start_pos: "0 < k \<Longrightarrow> k \<le> length fs \<Longrightarrow> 0 < field_start fs k"
  by (cases k; cases fs) (auto simp: field_start_def)

lemma c_str_take: "NUL \<notin> set f \<Longrightarrow> length f < n \<Longrightarrow> c_str (take n (f @ NUL # r)) = f"
proof -
  assume a: "NUL \<notin> set f" "length f < n"
  then obtain m where n: "n = length f + Suc m" by (metis less_imp_Suc_add add_Suc_right)
  show ?thesis using a(1) by (simp add: n c_str_plain)
qed

lemma minus_one_32: "(- 1 :: 32 word) = of_nat 4294967295"
  by simp

lemma field_len_Some:
  assumes "p \<le> j" "j < 4294967296" "0 < p"
  shows "unat ((of_nat j :: 32 word) - of_nat (p - 1) - 1) = j - p"
proof -
  obtain q where q: "p = Suc q" using assms(3) by (cases p) auto
  have "(of_nat j :: 32 word) - of_nat (p - 1) - 1 = of_nat j - of_nat p"
    by (simp add: q)
  also have "\<dots> = of_nat (j - p)" using assms(1) by simp
  finally show ?thesis using assms(2) by (simp add: unat_of_nat_32)
qed

lemma field_len_None:
  assumes "p < 4294967296" "0 < p"
  shows "unat ((- 1 :: 32 word) - of_nat (p - 1) - 1) = 4294967295 - p"
proof -
  have "unat ((of_nat 4294967295 :: 32 word) - of_nat (p - 1) - 1) = 4294967295 - p"
    using field_len_Some[of p 4294967295] assms by simp
  then show ?thesis by (simp only: minus_one_32)
qed

lemma old_plus_one:
  assumes "0 < p" "p < 4294967296"
  shows "unat ((of_nat (p - 1) :: 32 word) + 1) = p"
proof -
  obtain q where q: "p = Suc q" using assms(1) by (cases p) auto
  have "(of_nat (p - 1) :: 32 word) + 1 = of_nat p" by (simp add: q)
  then show ?thesis using assms(2) by (simp add: unat_of_nat_32)
qed

text \<open>
  In a line buffer that holds a joined row, the null and whatever was there before,
  reading column \<open>k\<close> from the comma in front of it gives the column and the position of the
  next comma.
\<close>

lemma read_field_mid:
  assumes s: "s = join_fields fs @ NUL # r" and len: "length s = 100000"
    and plain: "\<forall>f \<in> set fs. comma \<notin> set f \<and> NUL \<notin> set f"
    and k: "0 < k" "Suc k < length fs"
  shows "read_field s (of_nat (field_start fs k - 1)) = (fs ! k, of_nat (field_start fs (Suc k) - 1))"
proof -
  let ?p = "field_start fs k"
  let ?f = "fs ! k"
  have kl: "k < length fs" using k by simp
  have pos: "0 < ?p" using field_start_pos[of k fs] k by simp
  have fin: "fs ! k \<in> set fs" using kl by simp
  have split: "s = concat (map (\<lambda>f. f @ [comma]) (take k fs)) @ ?f @ comma # (join_fields (drop (Suc k) fs) @ NUL # r)"
    using join_fields_split[OF kl] k s by simp
  have dr: "drop ?p s = ?f @ comma # (join_fields (drop (Suc k) fs) @ NUL # r)"
    by (subst split) (simp add: field_start_def)
  have bound: "?p + length ?f < 100000"
    using len s field_end_le[OF kl] by simp
  have p1: "unat ((of_nat (?p - 1) :: 32 word) + 1) = ?p"
    using old_plus_one[OF pos] bound by simp
  have fnd: "str_find s comma ?p = Some (?p + length ?f)"
    using plain fin by (simp add: str_find_def dr find_from_append_hit)
  have n: "unat ((of_nat (?p + length ?f) :: 32 word) - of_nat (?p - 1) - 1) = length ?f"
    using field_len_Some[of ?p "?p + length ?f"] pos bound by simp
  have tx: "c_str (substr s ?p (length ?f)) = ?f"
    using plain fin by (simp add: substr_def dr c_str_plain')
  have e: "field_start fs (Suc k) - 1 = ?p + length ?f"
    by (simp add: field_start_Suc[OF kl])
  show ?thesis
    unfolding read_field_def Let_def p1 fnd to_uint_def option.case n tx e ..
qed

text \<open>
  The text is that of the column also for the last column of the row, where the search
  for the next comma runs into the old content of the buffer.
\<close>

lemma read_field_fst:
  assumes s: "s = join_fields fs @ NUL # r" and len: "length s = 100000"
    and plain: "\<forall>f \<in> set fs. comma \<notin> set f \<and> NUL \<notin> set f"
    and k: "0 < k" "k < length fs"
  shows "fst (read_field s (of_nat (field_start fs k - 1))) = fs ! k"
proof (cases "Suc k < length fs")
  case True
  then show ?thesis using read_field_mid[OF s len plain k(1)] by simp
next
  case False
  let ?p = "field_start fs k"
  let ?f = "fs ! k"
  have pos: "0 < ?p" using field_start_pos[of k fs] k by simp
  have fin: "fs ! k \<in> set fs" using k by simp
  have split: "s = concat (map (\<lambda>f. f @ [comma]) (take k fs)) @ ?f @ NUL # r"
    using join_fields_split[OF k(2)] False s by simp
  have dr: "drop ?p s = ?f @ NUL # r"
    by (subst split) (simp add: field_start_def)
  have bound: "?p + length ?f < 100000"
    using len s field_end_le[OF k(2)] by simp
  have p1: "unat ((of_nat (?p - 1) :: 32 word) + 1) = ?p"
    using old_plus_one[OF pos] bound by simp
  have lr: "?p + length ?f + 1 + length r = 100000"
    using len split by (simp add: field_start_def)
  have fnd: "str_find s comma ?p = find_from comma r (?p + length ?f + 1)"
    using plain fin by (simp add: str_find_def dr find_from_append_miss)
  have n: "length ?f < unat (to_uint (str_find s comma ?p) - of_nat (?p - 1) - 1)"
  proof (cases "find_from comma r (?p + length ?f + 1)")
    case None
    with fnd have "str_find s comma ?p = None" by simp
    then show ?thesis
      using field_len_None[of ?p] pos bound by (simp add: to_uint_def)
  next
    case (Some j)
    from find_from_bounds[OF Some] lr have j: "?p + length ?f + 1 \<le> j" "j < 100000" by auto
    from fnd Some have "str_find s comma ?p = Some j" by simp
    then show ?thesis
      using field_len_Some[of ?p j] pos j by (simp add: to_uint_def)
  qed
  have "NUL \<notin> set ?f" using plain fin by blast
  from c_str_take[OF this n, of r] show ?thesis
    unfolding read_field_def Let_def p1 substr_def dr fst_conv .
qed

lemma first_field_find:
  assumes s: "s = join_fields fs @ NUL # r"
    and plain: "\<forall>f \<in> set fs. comma \<notin> set f \<and> NUL \<notin> set f"
    and k: "1 < length fs"
  shows "str_find s comma 0 = Some (length (fs ! 0))"
proof -
  have k0: "0 < length fs" using k by (cases fs) auto
  have "s = fs ! 0 @ comma # (join_fields (drop (Suc 0) fs) @ NUL # r)"
    using join_fields_split[OF k0] k s by simp
  moreover have "fs ! 0 \<in> set fs" using nth_mem[OF k0] .
  ultimately show ?thesis using plain find_from_append_hit[of comma "fs ! 0" _ 0]
    by (simp add: str_find_def)
qed

lemma first_field_start: "1 < length fs \<Longrightarrow> length (fs ! 0) = field_start fs 1 - 1"
proof -
  assume "1 < length fs"
  then have "0 < length fs" by (cases fs) auto
  from field_start_Suc[OF this] show ?thesis by simp
qed

lemma first_field_with_comma:
  assumes s: "s = join_fields fs @ NUL # r" and len: "length s = 100000"
    and plain: "\<forall>f \<in> set fs. comma \<notin> set f \<and> NUL \<notin> set f"
    and k: "1 < length fs"
  shows "c_str (substr s 0 (unat ((of_nat (length (fs ! 0)) :: 32 word) - 0 + 1))) = fs ! 0 @ [comma]"
proof -
  have k0: "0 < length fs" using k by (cases fs) auto
  have split: "s = fs ! 0 @ comma # (join_fields (drop (Suc 0) fs) @ NUL # r)"
    using join_fields_split[OF k0] k s by simp
  have fin: "fs ! 0 \<in> set fs" using nth_mem[OF k0] .
  have "length s = length (fs ! 0) + Suc (length (join_fields (drop (Suc 0) fs) @ NUL # r))"
    by (subst split) simp
  then have "length (fs ! 0) < 100000" using len by simp
  then have b: "Suc (length (fs ! 0)) < 4294967296" by simp
  have "(of_nat (length (fs ! 0)) :: 32 word) - 0 + 1 = of_nat (Suc (length (fs ! 0)))"
    by simp
  then have u: "unat ((of_nat (length (fs ! 0)) :: 32 word) - 0 + 1) = Suc (length (fs ! 0))"
    using unat_of_nat_32[OF b] by (simp only:)
  have t: "take (Suc (length (fs ! 0))) s = fs ! 0 @ [comma]"
    by (subst split) simp
  have "NUL \<notin> set (fs ! 0 @ [comma])" using plain fin by simp
  then have "c_str (fs ! 0 @ [comma]) = fs ! 0 @ [comma]" by (rule c_str_plain')
  then show ?thesis unfolding substr_def u drop_0 t .
qed

lemma first_field_without_comma:
  assumes s: "s = join_fields fs @ NUL # r" and len: "length s = 100000"
    and plain: "\<forall>f \<in> set fs. comma \<notin> set f \<and> NUL \<notin> set f"
    and k: "1 < length fs"
  shows "c_str (substr s 0 (unat ((of_nat (length (fs ! 0)) :: 32 word) - 0))) = fs ! 0"
proof -
  have k0: "0 < length fs" using k by (cases fs) auto
  have split: "s = fs ! 0 @ comma # (join_fields (drop (Suc 0) fs) @ NUL # r)"
    using join_fields_split[OF k0] k s by simp
  have fin: "fs ! 0 \<in> set fs" using nth_mem[OF k0] .
  have "length s = length (fs ! 0) + Suc (length (join_fields (drop (Suc 0) fs) @ NUL # r))"
    by (subst split) simp
  then have "length (fs ! 0) < 100000" using len by simp
  then have u: "unat (of_nat (length (fs ! 0)) :: 32 word) = length (fs ! 0)"
    using unat_of_nat_32[of "length (fs ! 0)"] by simp
  have "take (length (fs ! 0)) s = fs ! 0"
    by (subst split) simp
  then show ?thesis using plain fin by (simp add: substr_def u c_str_plain')
qed

subsection \<open>One line of each statistics file\<close>

lemma first_comma:
  assumes s: "s = join_fields fs @ NUL # r"
    and plain: "\<forall>f \<in> set fs. comma \<notin> set f \<and> NUL \<notin> set f"
    and k: "1 < length fs"
  shows "to_uint (str_find s comma 0) = of_nat (field_start fs 1 - 1)"
  using first_field_find[OF s plain k] first_field_start[OF k] by (simp add: to_uint_def)

text \<open>
  The loop body of the emission parser on such a buffer.
\<close>

lemma emission_line_row:
  assumes s: "s = join_fields fs @ NUL # r" and len: "length s = 100000"
    and plain: "\<forall>f \<in> set fs. comma \<notin> set f \<and> NUL \<notin> set f"
    and n: "7 \<le> length fs"
  shows "emission_line conventions atof s =
           (if emission_accepts conventions fs then Some (emission_calls conventions atof fs)
            else None)"
proof -
  have k: "1 < length fs" using n by simp
  note c0 = first_comma[OF s plain k]
  have nm: "c_str (substr s 0 (unat ((of_nat (field_start fs 1 - 1) :: 32 word) - 0 + 1)))
              = fs ! 0 @ [comma]"
    using first_field_with_comma[OF s len plain k] first_field_start[OF k] by simp
  have r1: "read_field s (of_nat (field_start fs 1 - 1)) = (fs ! 1, of_nat (field_start fs 2 - 1))"
    using read_field_mid[OF s len plain, of 1] n by (simp add: numeral_2_eq_2)
  have r2: "read_field s (of_nat (field_start fs 2 - 1)) = (fs ! 2, of_nat (field_start fs 3 - 1))"
    using read_field_mid[OF s len plain, of 2] n by simp
  have r3: "read_field s (of_nat (field_start fs 3 - 1)) = (fs ! 3, of_nat (field_start fs 4 - 1))"
    using read_field_mid[OF s len plain, of 3] n by simp
  have r4: "read_field s (of_nat (field_start fs 4 - 1)) = (fs ! 4, of_nat (field_start fs 5 - 1))"
    using read_field_mid[OF s len plain, of 4] n by simp
  have r5: "read_field s (of_nat (field_start fs 5 - 1)) = (fs ! 5, of_nat (field_start fs 6 - 1))"
    using read_field_mid[OF s len plain, of 5] n by simp
  have r6: "fst (read_field s (of_nat (field_start fs 6 - 1))) = fs ! 6"
    using read_field_fst[OF s len plain, of 6] n by simp
  show ?thesis
    unfolding emission_line_def Let_def c0 nm r1 r2 r3 r4 r5 prod.case
    unfolding case_prod_beta r6
    by (simp add: emission_accepts_def emission_calls_def Let_def)
qed

text \<open>
  The loop body of the transition stats parser on such a buffer.
\<close>

lemma transition_stats_line_row:
  assumes s: "s = join_fields fs @ NUL # r" and len: "length s = 100000"
    and plain: "\<forall>f \<in> set fs. comma \<notin> set f \<and> NUL \<notin> set f"
    and n: "7 \<le> length fs"
  shows "transition_stats_line conventions atof s = transition_stats_calls conventions atof fs"
proof -
  have k: "1 < length fs" using n by simp
  note c0 = first_comma[OF s plain k]
  have nm: "c_str (substr s 0 (unat ((of_nat (field_start fs 1 - 1) :: 32 word) - 0))) = fs ! 0"
    using first_field_without_comma[OF s len plain k] first_field_start[OF k] by simp
  have r1: "read_field s (of_nat (field_start fs 1 - 1)) = (fs ! 1, of_nat (field_start fs 2 - 1))"
    using read_field_mid[OF s len plain, of 1] n by (simp add: numeral_2_eq_2)
  have r2: "read_field s (of_nat (field_start fs 2 - 1)) = (fs ! 2, of_nat (field_start fs 3 - 1))"
    using read_field_mid[OF s len plain, of 2] n by simp
  have r3: "read_field s (of_nat (field_start fs 3 - 1)) = (fs ! 3, of_nat (field_start fs 4 - 1))"
    using read_field_mid[OF s len plain, of 3] n by simp
  have r4: "read_field s (of_nat (field_start fs 4 - 1)) = (fs ! 4, of_nat (field_start fs 5 - 1))"
    using read_field_mid[OF s len plain, of 4] n by simp
  have r5: "read_field s (of_nat (field_start fs 5 - 1)) = (fs ! 5, of_nat (field_start fs 6 - 1))"
    using read_field_mid[OF s len plain, of 5] n by simp
  have r6: "fst (read_field s (of_nat (field_start fs 6 - 1))) = fs ! 6"
    using read_field_fst[OF s len plain, of 6] n by simp
  show ?thesis
    unfolding transition_stats_line_def Let_def c0 nm r1 r2 r3 r4 r5 prod.case
    unfolding case_prod_beta r6
    by (simp add: transition_stats_calls_def)
qed

subsection \<open>Reading lines\<close>

lemma takeWhile_line:
  "newline \<notin> set line \<Longrightarrow> takeWhile (\<lambda>c. c \<noteq> newline) (line @ newline # rest) = line"
  by (induction line) auto

lemma dropWhile_line:
  "newline \<notin> set line \<Longrightarrow>
   dropWhile (\<lambda>c. c \<noteq> newline) (line @ newline # rest) = newline # rest"
  by (induction line) auto

lemma takeWhile_last_line:
  "newline \<notin> set line \<Longrightarrow> takeWhile (\<lambda>c. c \<noteq> newline) line = line"
  by (induction line) auto

lemma dropWhile_last_line:
  "newline \<notin> set line \<Longrightarrow> dropWhile (\<lambda>c. c \<noteq> newline) line = []"
  by (induction line) auto

lemma getline_terminated:
  assumes "newline \<notin> set line" "length line < 100000"
  shows "getline w 100000 (ifstream_open (Some (line @ newline # rest)))
           = (store_chars line w, ifstream_open (Some rest))"
  using assms
  by (simp add: getline_def ifstream_open_def takeWhile_line dropWhile_line Let_def)

lemma getline_unterminated:
  assumes "newline \<notin> set line" "length line < 100000"
  shows "eofbit (snd (getline w 100000 (ifstream_open (Some line))))"
    and "fst (getline w 100000 (ifstream_open (Some line))) = store_chars line w"
  using assms
  by (simp_all add: getline_def ifstream_open_def takeWhile_last_line dropWhile_last_line Let_def)

lemma eofbit_open [simp]: "eofbit (ifstream_open (Some cs)) = False"
  by (simp add: ifstream_open_def)

lemma length_uninitialized [simp]: "length (uninitialized garbage) = 100000"
  by (simp add: uninitialized_def)

lemma length_store_chars:
  "length w = 100000 \<Longrightarrow> length line < 100000 \<Longrightarrow> length (store_chars line w) = 100000"
  by (simp add: store_chars_def)

lemma strLine_of_store_chars:
  "length w = 100000 \<Longrightarrow> length line < 100000 \<Longrightarrow>
   strLine_of (store_chars line w) = line @ NUL # drop (Suc (length line)) w"
  using length_store_chars[of w line] by (simp add: strLine_of_def) (simp add: store_chars_def)

lemma length_strLine_of_store_chars:
  "length w = 100000 \<Longrightarrow> length line < 100000 \<Longrightarrow>
   length (strLine_of (store_chars line w)) = 100000"
  using length_store_chars[of w line] by (simp add: strLine_of_def)

lemma plain_rowD:
  assumes "plain_row n fs"
  shows "n \<le> length fs" "\<forall>f \<in> set fs. comma \<notin> set f \<and> NUL \<notin> set f"
    "newline \<notin> set (join_fields fs)" "length (join_fields fs) < 100000"
  using assms join_fields_no_newline[of fs] by (auto simp: plain_row_def plain_field_def)

subsection \<open>The loops over the lines\<close>


lemma emission_loop_step:
  assumes row: "plain_row 7 fs" and w: "length w = 100000"
  shows "emission_loop conventions atof w (ifstream_open (Some (text_line fs @ rest))) calls =
     (if emission_accepts conventions fs
      then emission_loop conventions atof (store_chars (join_fields fs) w)
             (ifstream_open (Some rest)) (calls @ emission_calls conventions atof fs)
      else Some calls)"
proof -
  note r = plain_rowD[OF row]
  have g: "getline w 100000 (ifstream_open (Some (text_line fs @ rest)))
             = (store_chars (join_fields fs) w, ifstream_open (Some rest))"
    using getline_terminated[OF r(3,4)] by (simp add: text_line_def)
  have l: "emission_line conventions atof (strLine_of (store_chars (join_fields fs) w)) =
           (if emission_accepts conventions fs then Some (emission_calls conventions atof fs)
            else None)"
    by (rule emission_line_row[OF strLine_of_store_chars[OF w r(4)]
          length_strLine_of_store_chars[OF w r(4)] r(2) r(1)])
  show ?thesis
    by (subst emission_loop.simps) (simp add: g l)
qed

text \<open>
  Accepted rows are consumed one by one, each adding its six calls.
\<close>

lemma emission_loop_rows:
  assumes "\<forall>fs \<in> set rows. plain_row 7 fs \<and> emission_accepts conventions fs"
    and "length w = 100000"
  shows "\<exists>w'. length w' = 100000 \<and>
     emission_loop conventions atof w (ifstream_open (Some (concat (map text_line rows) @ rest)))
        calls =
     emission_loop conventions atof w' (ifstream_open (Some rest))
        (calls @ concat (map (emission_calls conventions atof) rows))"
  using assms
proof (induction rows arbitrary: w calls)
  case Nil
  then show ?case by auto
next
  case (Cons fs rows)
  have row: "plain_row 7 fs" and acc: "emission_accepts conventions fs"
    using Cons.prems(1) by auto
  have w2: "length (store_chars (join_fields fs) w) = 100000"
    using length_store_chars[OF Cons.prems(2)] plain_rowD(4)[OF row] by simp
  from Cons.IH[OF _ w2, of "calls @ emission_calls conventions atof fs"] Cons.prems(1)
  obtain w' where "length w' = 100000"
    and "emission_loop conventions atof (store_chars (join_fields fs) w)
           (ifstream_open (Some (concat (map text_line rows) @ rest)))
           (calls @ emission_calls conventions atof fs) =
         emission_loop conventions atof w' (ifstream_open (Some rest))
           ((calls @ emission_calls conventions atof fs)
             @ concat (map (emission_calls conventions atof) rows))"
    by auto
  then show ?case
    using emission_loop_step[OF row Cons.prems(2), of conventions atof
        "concat (map text_line rows) @ rest" calls] acc
    by auto
qed

lemma transition_stats_loop_unterminated:
  assumes "newline \<notin> set line" "length line < 100000"
  shows "transition_stats_loop conventions atof w (ifstream_open (Some line)) calls = Some calls"
  using getline_unterminated[OF assms, of w]
  by (subst transition_stats_loop.simps) (simp add: case_prod_beta)

lemma transition_stats_loop_step:
  assumes row: "plain_row 7 fs" and w: "length w = 100000"
  shows "transition_stats_loop conventions atof w (ifstream_open (Some (text_line fs @ rest)))
           calls =
         transition_stats_loop conventions atof (store_chars (join_fields fs) w)
           (ifstream_open (Some rest)) (calls @ transition_stats_calls conventions atof fs)"
proof -
  note r = plain_rowD[OF row]
  have g: "getline w 100000 (ifstream_open (Some (text_line fs @ rest)))
             = (store_chars (join_fields fs) w, ifstream_open (Some rest))"
    using getline_terminated[OF r(3,4)] by (simp add: text_line_def)
  have l: "transition_stats_line conventions atof (strLine_of (store_chars (join_fields fs) w))
           = transition_stats_calls conventions atof fs"
    by (rule transition_stats_line_row[OF strLine_of_store_chars[OF w r(4)]
          length_strLine_of_store_chars[OF w r(4)] r(2) r(1)])
  show ?thesis
    by (subst transition_stats_loop.simps) (simp add: g l)
qed

lemma transition_stats_loop_rows:
  assumes "\<forall>fs \<in> set rows. plain_row 7 fs" and "length w = 100000"
  shows "\<exists>w'. length w' = 100000 \<and>
     transition_stats_loop conventions atof w
        (ifstream_open (Some (concat (map text_line rows) @ rest))) calls =
     transition_stats_loop conventions atof w' (ifstream_open (Some rest))
        (calls @ concat (map (transition_stats_calls conventions atof) rows))"
  using assms
proof (induction rows arbitrary: w calls)
  case Nil
  then show ?case by auto
next
  case (Cons fs rows)
  have row: "plain_row 7 fs" using Cons.prems(1) by auto
  have w2: "length (store_chars (join_fields fs) w) = 100000"
    using length_store_chars[OF Cons.prems(2)] plain_rowD(4)[OF row] by simp
  from Cons.IH[OF _ w2, of "calls @ transition_stats_calls conventions atof fs"] Cons.prems(1)
  obtain w' where "length w' = 100000"
    and "transition_stats_loop conventions atof (store_chars (join_fields fs) w)
           (ifstream_open (Some (concat (map text_line rows) @ rest)))
           (calls @ transition_stats_calls conventions atof fs) =
         transition_stats_loop conventions atof w' (ifstream_open (Some rest))
           ((calls @ transition_stats_calls conventions atof fs)
             @ concat (map (transition_stats_calls conventions atof) rows))"
    by auto
  then show ?case
    using transition_stats_loop_step[OF row Cons.prems(2), of conventions atof
        "concat (map text_line rows) @ rest" calls]
    by auto
qed

subsection \<open>A last row without a newline\<close>







subsection \<open>Whole files\<close>

lemma SetEmissionProbabilityStatsFromFile_header:
  assumes "newline \<notin> set header" "length header < 100000"
  shows "SetEmissionProbabilityStatsFromFile conventions atof garbage calls
           (Some (header @ newline # body)) =
         emission_loop conventions atof (store_chars header (uninitialized garbage))
           (ifstream_open (Some body)) calls"
  by (simp add: SetEmissionProbabilityStatsFromFile_def getline_terminated[OF assms])

lemma SetTransitionProbabilityStatsFromFile_header:
  assumes "newline \<notin> set header" "length header < 100000"
  shows "SetTransitionProbabilityStatsFromFile conventions atof garbage calls
           (Some (header @ newline # body)) =
         transition_stats_loop conventions atof (store_chars header (uninitialized garbage))
           (ifstream_open (Some body)) calls"
  by (simp add: SetTransitionProbabilityStatsFromFile_def getline_terminated[OF assms])

lemma emission_line_rejects:
  assumes s: "s = join_fields fs @ NUL # r" and len: "length s = 100000"
    and plain: "\<forall>f \<in> set fs. comma \<notin> set f \<and> NUL \<notin> set f"
    and k: "1 < length fs" and rej: "\<not> emission_accepts conventions fs"
  shows "emission_line conventions atof s = None"
proof -
  note c0 = first_comma[OF s plain k]
  have nm: "c_str (substr s 0 (unat ((of_nat (field_start fs 1 - 1) :: 32 word) - 0 + 1)))
              = fs ! 0 @ [comma]"
    using first_field_with_comma[OF s len plain k] first_field_start[OF k] by simp
  show ?thesis
    unfolding emission_line_def Let_def c0 nm case_prod_beta
    using rej by (simp add: emission_accepts_def Let_def)
qed

lemma emission_loop_rejects:
  assumes row: "plain_row 2 fs" and w: "length w = 100000"
    and rej: "\<not> emission_accepts conventions fs"
  shows "emission_loop conventions atof w (ifstream_open (Some (text_line fs @ rest))) calls
           = Some calls"
proof -
  note r = plain_rowD[OF row]
  have k: "1 < length fs" using r(1) by simp
  have g: "getline w 100000 (ifstream_open (Some (text_line fs @ rest)))
             = (store_chars (join_fields fs) w, ifstream_open (Some rest))"
    using getline_terminated[OF r(3,4)] by (simp add: text_line_def)
  have l: "emission_line conventions atof (strLine_of (store_chars (join_fields fs) w)) = None"
    by (rule emission_line_rejects[OF strLine_of_store_chars[OF w r(4)]
          length_strLine_of_store_chars[OF w r(4)] r(2) k rej])
  show ?thesis
    by (subst emission_loop.simps) (simp add: g l)
qed

lemma dle_not_dgt: "dle a b \<Longrightarrow> \<not> dgt a b"
  by (cases a; cases b) auto

lemma SetEmissionProbabilityStatsFromFile_rejected_row:
  assumes "newline \<notin> set header" and "length header < 100000"
    and "\<forall>fs \<in> set rows. plain_row 7 fs \<and> emission_accepts conventions fs"
    and "plain_row 2 bad" and "\<not> emission_accepts conventions bad"
  shows "SetEmissionProbabilityStatsFromFile conventions atof garbage calls
           (Some (header @ newline # concat (map text_line rows) @ text_line bad @ rest))
         = Some (calls @ concat (map (emission_calls conventions atof) rows))"
proof -
  have w: "length (store_chars header (uninitialized garbage)) = 100000"
    using length_store_chars[OF length_uninitialized assms(2)] .
  from emission_loop_rows[OF assms(3) w, of atof "text_line bad @ rest" calls]
  obtain w' where w': "length w' = 100000"
    and "emission_loop conventions atof (store_chars header (uninitialized garbage))
        (ifstream_open (Some (concat (map text_line rows) @ text_line bad @ rest))) calls =
      emission_loop conventions atof w' (ifstream_open (Some (text_line bad @ rest)))
        (calls @ concat (map (emission_calls conventions atof) rows))"
    by auto
  then show ?thesis
    using emission_loop_rejects[OF assms(4) w' assms(5)]
    by (simp add: SetEmissionProbabilityStatsFromFile_header[OF assms(1,2)])
qed

lemma SetTransitionProbabilityStatsFromFile_rows:
  assumes "newline \<notin> set header" and "length header < 100000"
    and "\<forall>fs \<in> set rows. plain_row 7 fs"
    and "newline \<notin> set lastRow" and "length lastRow < 100000"
  shows "SetTransitionProbabilityStatsFromFile conventions atof garbage calls
           (Some (header @ newline # concat (map text_line rows) @ lastRow))
         = Some (calls @ concat (map (transition_stats_calls conventions atof) rows))"
proof -
  have w: "length (store_chars header (uninitialized garbage)) = 100000"
    using length_store_chars[OF length_uninitialized assms(2)] .
  from transition_stats_loop_rows[OF assms(3) w, of conventions atof lastRow calls]
  obtain w' where "transition_stats_loop conventions atof
        (store_chars header (uninitialized garbage))
        (ifstream_open (Some (concat (map text_line rows) @ lastRow))) calls =
      transition_stats_loop conventions atof w' (ifstream_open (Some lastRow))
        (calls @ concat (map (transition_stats_calls conventions atof) rows))"
    by auto
  then show ?thesis
    using transition_stats_loop_unterminated[OF assms(4,5)]
    by (simp add: SetTransitionProbabilityStatsFromFile_header[OF assms(1,2)])
qed

subsection \<open>The example rows\<close>

lemma example_stats_rows_plain: "\<forall>fs \<in> set example_stats_rows. plain_row 7 fs"
  by (simp add: example_stats_rows_def plain_row_def plain_field_def comma_def NUL_def
      newline_def)

lemma example_stats_calls:
  "concat (map (transition_stats_calls example_conventions example_atof) example_stats_rows) =
     [SetNormalTransitionProbabilityMeansAndVariances 0 0 (Finite 1) (Finite 4) (Finite 3)
        (Finite 16),
      SetNormalTransitionProbabilityMeansAndVariances 39 40 (Finite 9) (Finite 4) (Finite 8)
        (Finite 9)]"
  by (simp add: example_stats_rows_def transition_stats_calls_def example_conventions_def
      table_conventions_def table_lookup_def example_names_def example_atof_def dmul_def)

subsection \<open>The grid of transition probabilities\<close>

lemma transition_columns_end: "transition_columns atof s fromType 11 c calls = calls"
  by (subst transition_columns.simps) simp

lemma transition_columns_step:
  "0 < j \<Longrightarrow> j \<le> 10 \<Longrightarrow>
   transition_columns atof s fromType j c calls =
     transition_columns atof s fromType (Suc j) (snd (read_field s c))
       (calls @ [SetTransitionProbability fromType (of_nat j + 38)
                   (atof (fst (read_field s c)))])"
  by (subst transition_columns.simps) (simp add: Let_def case_prod_beta)

lemma transition_columns_first:
  "transition_columns atof s fromType 0 0 calls =
     transition_columns atof s fromType (Suc 0) (to_uint (str_find s comma 0))
       (calls @ [SetTransitionProbability fromType 38
                   (atof (c_str (substr s 0 (unat (to_uint (str_find s comma 0) - 0 + 1)))))])"
  by (subst transition_columns.simps) (simp add: Let_def)

text \<open>
  The types of the 121 calls do not depend on what is read.
\<close>

lemma transition_columns_types:
  "j \<le> 11 \<Longrightarrow>
   map transition_types (transition_columns atof s fromType j c calls) =
     map transition_types calls @ map (\<lambda>j. Some (fromType, of_nat j + 38)) [j..<11]"
proof (induction "11 - j" arbitrary: j c calls)
  case 0
  then show ?case by (subst transition_columns.simps) simp
next
  case (Suc n)
  then have j: "j \<le> 10" by simp
  have u: "[j..<11] = j # [Suc j..<11]" using j by (simp add: upt_conv_Cons)
  from Suc(1)[of "Suc j"] Suc(2) j show ?case
    by (subst transition_columns.simps) (simp add: Let_def case_prod_beta u)
qed

lemma transition_rows_types:
  "i \<le> 11 \<Longrightarrow>
   map transition_types (transition_rows atof i w fl calls) =
     map transition_types calls @
     concat (map (\<lambda>i. map (\<lambda>j. Some (of_nat i + 38, of_nat j + 38)) [0..<11]) [i..<11])"
proof (induction "11 - i" arbitrary: i w fl calls)
  case 0
  then show ?case by (subst transition_rows.simps) simp
next
  case (Suc n)
  then have i: "i \<le> 10" by simp
  have u: "[i..<11] = i # [Suc i..<11]" using i by (simp add: upt_conv_Cons)
  from Suc(1)[of "Suc i"] Suc(2) i show ?case
    by (subst transition_rows.simps)
       (simp add: Let_def case_prod_beta u transition_columns_types)
qed

text \<open>
  The values converted for the columns 1 to 10 of a plain row.
\<close>

lemma transition_columns_fields:
  assumes s: "s = join_fields fs @ NUL # r" and len: "length s = 100000"
    and plain: "\<forall>f \<in> set fs. comma \<notin> set f \<and> NUL \<notin> set f"
    and n: "11 \<le> length fs"
  shows "1 \<le> j \<Longrightarrow> j \<le> 10 \<Longrightarrow>
     transition_columns atof s fromType j (of_nat (field_start fs j - 1)) calls =
       calls @ map (\<lambda>j. SetTransitionProbability fromType (of_nat j + 38) (atof (fs ! j)))
                 [j..<11]"
proof (induction "10 - j" arbitrary: j calls)
  case 0
  then have j: "j = 10" by simp
  have f: "fst (read_field s (of_nat (field_start fs 10 - 1))) = fs ! 10"
    using read_field_fst[OF s len plain, of 10] n by simp
  have "transition_columns atof s fromType 10 (of_nat (field_start fs 10 - 1)) calls =
          calls @ [SetTransitionProbability fromType (of_nat 10 + 38) (atof (fs ! 10))]"
    using transition_columns_step[of 10 atof s fromType "of_nat (field_start fs 10 - 1)" calls]
    unfolding f by (simp add: transition_columns_end)
  then show ?case unfolding j by (simp add: upt_conv_Cons)
next
  case (Suc d)
  then have j: "1 \<le> j" "j < 10" by simp_all
  have r: "read_field s (of_nat (field_start fs j - 1))
            = (fs ! j, of_nat (field_start fs (Suc j) - 1))"
    using read_field_mid[OF s len plain, of j] j n by simp
  have u: "[j..<11] = j # [Suc j..<11]" using j by (simp add: upt_conv_Cons)
  have ih: "transition_columns atof s fromType (Suc j) (of_nat (field_start fs (Suc j) - 1))
              (calls @ [SetTransitionProbability fromType (of_nat j + 38) (atof (fs ! j))]) =
            (calls @ [SetTransitionProbability fromType (of_nat j + 38) (atof (fs ! j))]) @
              map (\<lambda>j. SetTransitionProbability fromType (of_nat j + 38) (atof (fs ! j)))
                [Suc j..<11]"
    using Suc(1)[of "Suc j"] Suc(2) j by simp
  have jn: "j \<noteq> 0" "j \<le> 10" using j by simp_all
  have "0 < j" using j by simp
  from transition_columns_step[OF this jn(2), of atof s fromType "of_nat (field_start fs j - 1)"
      calls]
  show ?case unfolding r fst_conv snd_conv ih u by simp
qed

lemma transition_columns_row:
  assumes s: "s = join_fields fs @ NUL # r" and len: "length s = 100000"
    and plain: "\<forall>f \<in> set fs. comma \<notin> set f \<and> NUL \<notin> set f"
    and n: "11 \<le> length fs"
  shows "transition_columns atof s (of_nat i + 38) 0 0 calls
           = calls @ transition_row_calls atof i fs"
proof -
  have k: "1 < length fs" using n by simp
  note c0 = first_comma[OF s plain k]
  have nm: "c_str (substr s 0 (unat ((of_nat (field_start fs 1 - 1) :: 32 word) - 0 + 1)))
              = fs ! 0 @ [comma]"
    using first_field_with_comma[OF s len plain k] first_field_start[OF k] by simp
  have rest: "transition_columns atof s (of_nat i + 38) (Suc 0) (of_nat (field_start fs 1 - 1))
          (calls @ [SetTransitionProbability (of_nat i + 38) (of_nat 0 + 38)
                      (atof (fs ! 0 @ [comma]))]) =
        (calls @ [SetTransitionProbability (of_nat i + 38) (of_nat 0 + 38)
                      (atof (fs ! 0 @ [comma]))]) @
        map (\<lambda>j. SetTransitionProbability (of_nat i + 38) (of_nat j + 38) (atof (fs ! j)))
          [1..<11]"
    using transition_columns_fields[OF s len plain n, of 1] by simp
  have m: "map (\<lambda>j. SetTransitionProbability (of_nat i + 38) (of_nat j + 38)
                (atof (if j = 0 then fs ! 0 @ [comma] else fs ! j))) [1..<11]
         = map (\<lambda>j. SetTransitionProbability (of_nat i + 38) (of_nat j + 38) (atof (fs ! j)))
             [1..<11]"
    by (rule map_cong) auto
  have u: "[0..<11] = 0 # [1..<11]" by (simp add: upt_conv_Cons)
  have "transition_columns atof s (of_nat i + 38) 0 0 calls =
        (calls @ [SetTransitionProbability (of_nat i + 38) (of_nat 0 + 38)
                      (atof (fs ! 0 @ [comma]))]) @
        map (\<lambda>j. SetTransitionProbability (of_nat i + 38) (of_nat j + 38) (atof (fs ! j)))
          [1..<11]"
    unfolding transition_columns_first c0 nm using rest by simp
  then show ?thesis
    unfolding transition_row_calls_def u list.map m by simp
qed

lemma transition_rows_end: "transition_rows atof 11 w fl calls = calls"
  by (subst transition_rows.simps) simp

lemma transition_rows_step:
  assumes row: "plain_row 11 fs" and w: "length w = 100000" and i: "i \<le> 10"
  shows "transition_rows atof i w (ifstream_open (Some (text_line fs @ rest))) calls =
         transition_rows atof (Suc i) (store_chars (join_fields fs) w)
           (ifstream_open (Some rest)) (calls @ transition_row_calls atof i fs)"
proof -
  note r = plain_rowD[OF row]
  have g: "getline w 100000 (ifstream_open (Some (text_line fs @ rest)))
             = (store_chars (join_fields fs) w, ifstream_open (Some rest))"
    using getline_terminated[OF r(3,4)] by (simp add: text_line_def)
  have l: "transition_columns atof (strLine_of (store_chars (join_fields fs) w))
             (of_nat i + 38) 0 0 calls = calls @ transition_row_calls atof i fs"
    by (rule transition_columns_row[OF strLine_of_store_chars[OF w r(4)]
          length_strLine_of_store_chars[OF w r(4)] r(2) r(1)])
  show ?thesis
    by (subst transition_rows.simps) (simp add: g l i Let_def)
qed

lemma transition_rows_last:
  assumes row: "plain_row 11 fs" and w: "length w = 100000"
    and tail: "tail = [] \<or> hd tail = newline"
  shows "transition_rows atof 10 w (ifstream_open (Some (join_fields fs @ tail))) calls =
         calls @ transition_row_calls atof 10 fs"
proof -
  note r = plain_rowD[OF row]
  have g: "fst (getline w 100000 (ifstream_open (Some (join_fields fs @ tail))))
             = store_chars (join_fields fs) w"
  proof (cases tail)
    case Nil
    then show ?thesis using getline_unterminated(2)[OF r(3,4)] by simp
  next
    case (Cons c rest)
    with tail have "tail = newline # rest" by simp
    then show ?thesis using getline_terminated[OF r(3,4), of w rest] by simp
  qed
  have l: "transition_columns atof (strLine_of (store_chars (join_fields fs) w))
             (of_nat 10 + 38) 0 0 calls = calls @ transition_row_calls atof 10 fs"
    by (rule transition_columns_row[OF strLine_of_store_chars[OF w r(4)]
          length_strLine_of_store_chars[OF w r(4)] r(2) r(1)])
  show ?thesis
    apply (subst transition_rows.simps)
    apply (simp add: case_prod_beta g Let_def transition_rows_end)
    using l apply simp
    done
qed

lemma transition_rows_grid:
  assumes "\<forall>fs \<in> set rows. plain_row 11 fs" and "length w = 100000"
    and "i + length rows \<le> 11"
  shows "\<exists>w'. length w' = 100000 \<and>
     transition_rows atof i w (ifstream_open (Some (concat (map text_line rows) @ rest))) calls =
     transition_rows atof (i + length rows) w' (ifstream_open (Some rest))
       (calls @ concat (map (\<lambda>k. transition_row_calls atof (i + k) (rows ! k))
                          [0..<length rows]))"
  using assms
proof (induction rows arbitrary: i w calls)
  case Nil
  then show ?case by auto
next
  case (Cons fs rows)
  have row: "plain_row 11 fs" using Cons.prems(1) by auto
  have i: "i \<le> 10" using Cons.prems(3) by simp
  have w2: "length (store_chars (join_fields fs) w) = 100000"
    using length_store_chars[OF Cons.prems(2)] plain_rowD(4)[OF row] by simp
  from Cons.IH[OF _ w2, of "Suc i" "calls @ transition_row_calls atof i fs"] Cons.prems(1,3)
  obtain w' where w': "length w' = 100000"
    and e: "transition_rows atof (Suc i) (store_chars (join_fields fs) w)
           (ifstream_open (Some (concat (map text_line rows) @ rest)))
           (calls @ transition_row_calls atof i fs) =
         transition_rows atof (Suc i + length rows) w' (ifstream_open (Some rest))
           ((calls @ transition_row_calls atof i fs)
             @ concat (map (\<lambda>k. transition_row_calls atof (Suc i + k) (rows ! k))
                         [0..<length rows]))"
    by auto
  have m: "map (\<lambda>k. transition_row_calls atof (i + k) ((fs # rows) ! k)) [0..<length (fs # rows)]
         = transition_row_calls atof i fs
           # map (\<lambda>k. transition_row_calls atof (Suc i + k) (rows ! k)) [0..<length rows]"
    by (simp add: map_upt_Suc del: upt_Suc)
  show ?case
    using transition_rows_step[OF row Cons.prems(2) i, of atof
        "concat (map text_line rows) @ rest" calls] e w'
    unfolding m by auto
qed

lemma SetTransitionProbabilitiesFromFile_grid:
  assumes n: "length grid = 11" and rows: "\<forall>fs \<in> set grid. plain_row 11 fs"
    and tail: "tail = [] \<or> hd tail = newline"
  shows "SetTransitionProbabilitiesFromFile atof garbage calls
           (Some (concat (map text_line (butlast grid)) @ join_fields (last grid) @ tail))
         = calls @ concat (map (\<lambda>i. transition_row_calls atof i (grid ! i)) [0..<11])"
proof -
  have ne: "grid \<noteq> []" using n by auto
  have b: "\<forall>fs \<in> set (butlast grid). plain_row 11 fs"
    using rows by (meson in_set_butlastD)
  have l: "plain_row 11 (last grid)" using rows ne by simp
  have lb: "length (butlast grid) = 10" using n by simp
  from transition_rows_grid[OF b length_uninitialized, of 0 atof garbage
      "join_fields (last grid) @ tail" calls] lb
  obtain w' where w': "length w' = 100000"
    and e: "transition_rows atof 0 (uninitialized garbage)
        (ifstream_open (Some (concat (map text_line (butlast grid))
           @ join_fields (last grid) @ tail))) calls =
      transition_rows atof 10 w' (ifstream_open (Some (join_fields (last grid) @ tail)))
        (calls @ concat (map (\<lambda>k. transition_row_calls atof k (butlast grid ! k)) [0..<10]))"
    by auto
  have m: "map (\<lambda>k. transition_row_calls atof k (butlast grid ! k)) [0..<10]
         = map (\<lambda>k. transition_row_calls atof k (grid ! k)) [0..<10]"
  proof (rule map_cong)
    fix k assume "k \<in> set [0..<10]"
    then have "k < length (butlast grid)" using lb by simp
    then show "transition_row_calls atof k (butlast grid ! k)
             = transition_row_calls atof k (grid ! k)"
      by (simp only: nth_butlast)
  qed simp
  have lg: "last grid = grid ! 10" using n ne by (simp add: last_conv_nth)
  have u: "[0..<11] = [0..<10] @ [10]" by (simp add: upt_conv_Cons)
  show ?thesis
    unfolding SetTransitionProbabilitiesFromFile_def e transition_rows_last[OF l w' tail] m u
    by (simp add: lg)
qed

subsection \<open>Reading the store of transition probabilities\<close>

lemma fold_store_transition_other:
  "\<forall>c \<in> set ys. transition_types c \<noteq> Some k \<Longrightarrow> fold store_transition ys m k = m k"
proof (induction ys arbitrary: m)
  case Nil
  then show ?case by simp
next
  case (Cons c ys)
  then show ?case by (cases c) auto
qed

lemma fold_store_transition_last:
  assumes "\<forall>c \<in> set ys. transition_types c \<noteq> Some (f, t)"
  shows "fold store_transition (xs @ SetTransitionProbability f t p # ys) m (f, t) = Some p"
  using fold_store_transition_other[OF assms] by simp

lemma type_code_inj:
  assumes "a \<le> 10" "b \<le> 10" "(of_nat a + 38 :: 8 word) = of_nat b + 38"
  shows "a = b"
proof -
  from assms(3) have "(of_nat a :: 8 word) = of_nat b" by simp
  then have "unat (of_nat a :: 8 word) = unat (of_nat b :: 8 word)" by simp
  then show ?thesis using assms(1,2) by (simp add: unat_of_nat)
qed

lemma upt_split_at: "i \<le> 10 \<Longrightarrow> [0..<11] = [0..<i] @ i # [Suc i..<11]"
proof -
  assume i: "i \<le> 10"
  have "[0..<11] = [0..<i] @ [i..<11]"
    using upt_add_eq_append[of 0 i "11 - i"] i by simp
  moreover have "[i..<11] = i # [Suc i..<11]" using i by (simp add: upt_conv_Cons)
  ultimately show ?thesis by simp
qed

text \<open>
  After the 121 calls the store holds, for each pair, the value of its own call: the
  type codes of the eleven generations are distinct.
\<close>

lemma grid_lookup:
  assumes i: "i \<le> 10" and j: "j \<le> 10"
  shows "transition_probabilities
           (concat (map (\<lambda>i. map (\<lambda>j. SetTransitionProbability (of_nat i + 38) (of_nat j + 38)
                                       (v i j)) [0..<11]) [0..<11]))
           (of_nat i + 38, of_nat j + 38) = Some (v i j)"
proof -
  let ?cell = "\<lambda>i j. SetTransitionProbability (of_nat i + 38) (of_nat j + 38) (v i j)"
  let ?row = "\<lambda>i. map (?cell i) [0..<11]"
  let ?xs = "concat (map ?row [0..<i]) @ map (?cell i) [0..<j]"
  let ?ys = "map (?cell i) [Suc j..<11] @ concat (map ?row [Suc i..<11])"
  have r: "?row i = map (?cell i) [0..<j] @ ?cell i j # map (?cell i) [Suc j..<11]"
    by (subst upt_split_at[OF j]) simp
  have "concat (map ?row [0..<11])
      = concat (map ?row [0..<i]) @ ?row i @ concat (map ?row [Suc i..<11])"
    by (subst upt_split_at[OF i]) simp
  then have L: "concat (map ?row [0..<11]) = ?xs @ ?cell i j # ?ys"
    by (simp only: r append_assoc append_Cons)
  have ys: "\<forall>c \<in> set ?ys. transition_types c \<noteq> Some (of_nat i + 38, of_nat j + 38)"
  proof
    fix c assume "c \<in> set ?ys"
    then consider j' where "Suc j \<le> j'" "j' < 11" "c = ?cell i j'"
      | i' j' where "Suc i \<le> i'" "i' < 11" "j' < 11" "c = ?cell i' j'"
      by auto
    then show "transition_types c \<noteq> Some (of_nat i + 38, of_nat j + 38)"
    proof cases
      case 1
      then show ?thesis using type_code_inj[of j' j] j by auto
    next
      case 2
      then show ?thesis using type_code_inj[of i' i] i by auto
    qed
  qed
  show ?thesis
    unfolding transition_probabilities_def L
    by (rule fold_store_transition_last[OF ys])
qed
subsection \<open>Names that are not in the naming table\<close>

lemma table_lookup_with_comma:
  assumes "\<forall>name \<in> set (map fst names). comma \<notin> set name"
  shows "table_lookup names (name @ [comma]) = 0"
proof -
  have "name @ [comma] \<notin> fst ` set names" using assms by force
  then have "map_of names (name @ [comma]) = None" by (simp add: map_of_eq_None_iff)
  then show ?thesis by (simp add: table_lookup_def)
qed

lemma table_conventions_rejects:
  assumes "\<forall>name \<in> set (map fst names). comma \<notin> set name"
  shows "\<not> emission_accepts (table_conventions names n) fs"
  using table_lookup_with_comma[OF assms]
  by (simp add: emission_accepts_def table_conventions_def)

lemma example_names_comma_free: "\<forall>name \<in> set (map fst example_names). comma \<notin> set name"
  by (simp add: example_names_def comma_def)

subsection \<open>Lines of any content\<close>














text \<open>
  The loop of the transition probability stats parser tests \<^verbatim>\<open>eof()\<close> only: on a stream
  that has \<open>failbit\<close> set and \<open>eofbit\<close> not (the file could not be opened, or a line did
  not fit the buffer) no read changes the state any more, and the loop does not end.
\<close>

lemma transition_stats_loop_failbit_aux:
  assumes "transition_stats_loop conventions atof w fl calls = Some y"
  shows "\<not> (failbit fl \<and> \<not> eofbit fl)"
  using assms
proof (induction rule: transition_stats_loop.raw_induct)
  case (1 loop conventions atof w fl calls y)
  show ?case
  proof
    assume f: "failbit fl \<and> \<not> eofbit fl"
    then have g: "getline w 100000 fl = (store_chars [] w, fl\<lparr>failbit := True\<rparr>)"
      by (simp add: getline_def)
    from 1(2) g f have a: "loop conventions atof (store_chars [] w) (fl\<lparr>failbit := True\<rparr>)
        (calls @ transition_stats_line conventions atof (strLine_of (store_chars [] w))) = Some y"
      by simp
    from 1(3) g f have b: "transition_stats_loop conventions atof (store_chars [] w)
        (fl\<lparr>failbit := True\<rparr>)
        (calls @ transition_stats_line conventions atof (strLine_of (store_chars [] w))) = Some y"
      by (subst (asm) transition_stats_loop.simps) simp
    from 1(1)[OF a b] f show False by simp
  qed
qed (rule assms)

lemma transition_stats_loop_failbit:
  "failbit fl \<Longrightarrow> \<not> eofbit fl \<Longrightarrow> transition_stats_loop conventions atof w fl calls = None"
  using transition_stats_loop_failbit_aux[of conventions atof w fl calls]
  by (cases "transition_stats_loop conventions atof w fl calls") auto

lemma SetTransitionProbabilityStatsFromFile_not_opened:
  "SetTransitionProbabilityStatsFromFile conventions atof garbage calls None = None"
  by (simp add: SetTransitionProbabilityStatsFromFile_def getline_def ifstream_open_def
      transition_stats_loop_failbit)


subsection \<open>A line without a comma\<close>







subsection \<open>The example of a line that is not a row\<close>





subsection \<open>The name the emission parser looks up\<close>









section \<open>The claims about the parsers\<close>

lemma grid_size:
  "length (concat (map (\<lambda>i. map (f i) [0..<11]) [0..<(11::nat)])) = 121"
  by (simp add: length_concat comp_def sum_list_triv)

lemma length_SetTransitionProbabilitiesFromFile:
  "length (SetTransitionProbabilitiesFromFile atof garbage calls fileContent)
     = length calls + 121"
proof -
  have "length (map transition_types
          (SetTransitionProbabilitiesFromFile atof garbage calls fileContent))
        = length (map transition_types calls) + 121"
    unfolding SetTransitionProbabilitiesFromFile_def
    by (subst transition_rows_types) (simp_all add: grid_size)
  then show ?thesis by simp
qed

lemma upt_10: "[0..<10] = [0, 1, 2, 3, 4, 5, 6, 7, 8, 9]"
  by (simp add: upt_conv_Cons)

text \<open>
  C5. The claim fails on the code by a slip in the parser. With the naming table of the
  examples the names of the three rows resolve to the valid type codes 38, 39 and 40 (the
  number of enumerated chest regions being 60). The parser looks a name up together with
  the comma behind it, since the length it gives to \<^verbatim>\<open>substr\<close> is
  \<^verbatim>\<open>commaLocNew-commaLocOld+1\<close>; for the first row it finds the undefined type 0 and
  stops. A file of the header and the three rows, each ended by a newline, gives no
  setter call where the claim has three entries, and so does the file whose fourth row has
  an unknown name.
\<close>

theorem emission_name_looked_up_with_comma:
  "GetChestTypeValueFromName example_conventions ''AIRWAYGENERATION0'' = 38
   \<and> GetChestTypeValueFromName example_conventions ''AIRWAYGENERATION1'' = 39
   \<and> GetChestTypeValueFromName example_conventions ''AIRWAYGENERATION2'' = 40
   \<and> GetNumberOfEnumeratedChestRegions example_conventions = 60
   \<and> GetChestTypeValueFromName example_conventions ''AIRWAYGENERATION0,'' = 0
   \<and> SetEmissionProbabilityStatsFromFile example_conventions example_atof zero_garbage []
        (Some (''type,scaleMean,scaleStd,distMean,distStd,angleMean,angleStd,n\<newline>'' @
               ''AIRWAYGENERATION0,10,2,30,4,50,6,100\<newline>'' @
               ''AIRWAYGENERATION1,11,3,31,5,51,7,101\<newline>'' @
               ''AIRWAYGENERATION2,12,4,32,6,52,8,102\<newline>''))
      = Some []
   \<and> SetEmissionProbabilityStatsFromFile example_conventions example_atof zero_garbage []
        (Some (''type,scaleMean,scaleStd,distMean,distStd,angleMean,angleStd,n\<newline>'' @
               ''AIRWAYGENERATION0,10,2,30,4,50,6,100\<newline>'' @
               ''AIRWAYGENERATION1,11,3,31,5,51,7,101\<newline>'' @
               ''AIRWAYGENERATION2,12,4,32,6,52,8,102\<newline>'' @
               ''NOTATYPE,1,2,3,4,5,6,7\<newline>'' @
               ''AIRWAYGENERATION3,13,5,33,7,53,9,103\<newline>''))
      = Some []"
proof -
  let ?header = "''type,scaleMean,scaleStd,distMean,distStd,angleMean,angleStd,n''"
  let ?row = "[''AIRWAYGENERATION0'', ''10'', ''2'', ''30'', ''4'', ''50'', ''6'', ''100'']"
  have h: "newline \<notin> set ?header" "length ?header < 100000"
    by (simp_all add: newline_def)
  have e: "\<forall>fs \<in> set []. plain_row 7 fs \<and> emission_accepts example_conventions fs" by simp
  have b: "plain_row 2 ?row"
    by (simp add: plain_row_def plain_field_def comma_def NUL_def newline_def)
  have r: "\<not> emission_accepts example_conventions ?row"
    unfolding example_conventions_def
    by (rule table_conventions_rejects[OF example_names_comma_free])
  have f1: "''type,scaleMean,scaleStd,distMean,distStd,angleMean,angleStd,n\<newline>'' @
               ''AIRWAYGENERATION0,10,2,30,4,50,6,100\<newline>'' @
               ''AIRWAYGENERATION1,11,3,31,5,51,7,101\<newline>'' @
               ''AIRWAYGENERATION2,12,4,32,6,52,8,102\<newline>''
         = ?header @ newline # concat (map text_line []) @ text_line ?row @
               ''AIRWAYGENERATION1,11,3,31,5,51,7,101\<newline>'' @
               ''AIRWAYGENERATION2,12,4,32,6,52,8,102\<newline>''"
    by (simp add: newline_def text_line_def comma_def)
  have f2: "''type,scaleMean,scaleStd,distMean,distStd,angleMean,angleStd,n\<newline>'' @
               ''AIRWAYGENERATION0,10,2,30,4,50,6,100\<newline>'' @
               ''AIRWAYGENERATION1,11,3,31,5,51,7,101\<newline>'' @
               ''AIRWAYGENERATION2,12,4,32,6,52,8,102\<newline>'' @
               ''NOTATYPE,1,2,3,4,5,6,7\<newline>'' @
               ''AIRWAYGENERATION3,13,5,33,7,53,9,103\<newline>''
         = ?header @ newline # concat (map text_line []) @ text_line ?row @
               ''AIRWAYGENERATION1,11,3,31,5,51,7,101\<newline>'' @
               ''AIRWAYGENERATION2,12,4,32,6,52,8,102\<newline>'' @
               ''NOTATYPE,1,2,3,4,5,6,7\<newline>'' @
               ''AIRWAYGENERATION3,13,5,33,7,53,9,103\<newline>''"
    by (simp add: newline_def text_line_def comma_def)
  have n: "GetChestTypeValueFromName example_conventions ''AIRWAYGENERATION0'' = 38"
    "GetChestTypeValueFromName example_conventions ''AIRWAYGENERATION1'' = 39"
    "GetChestTypeValueFromName example_conventions ''AIRWAYGENERATION2'' = 40"
    "GetNumberOfEnumeratedChestRegions example_conventions = 60"
    "GetChestTypeValueFromName example_conventions ''AIRWAYGENERATION0,'' = 0"
    by (simp_all add: example_conventions_def table_conventions_def table_lookup_def
        example_names_def)
  note s = SetEmissionProbabilityStatsFromFile_rejected_row[OF h e b r,
      of example_atof zero_garbage "[]"]
  show ?thesis
    unfolding f1 f2 s n by simp
qed




text \<open>
  C8, as the code has it. For a transition probability stats file made of a header line
  and newline-terminated plain rows, possibly followed by a last row without a newline,
  \<^verbatim>\<open>SetTransitionProbabilityStatsFromFile\<close> returns after the calls of the
  newline-terminated rows in order: no call for a row whose sample count is less than or
  equal to 10, and exactly one call of
  \<^verbatim>\<open>SetNormalTransitionProbabilityMeansAndVariances\<close> for a row whose sample count is
  greater than 10, with the types of the two names, the two means, and the squares of the
  two standard deviations as variances. A last row without a newline gives no call.
\<close>

theorem transition_stats_sample_count:
  assumes "newline \<notin> set header" and "length header < 100000"
    and "\<forall>fs \<in> set rows. plain_row 7 fs"
    and "newline \<notin> set lastRow" and "length lastRow < 100000"
  shows "SetTransitionProbabilityStatsFromFile conventions atof garbage calls
           (Some (header @ newline # concat (map text_line rows) @ lastRow))
         = Some (calls @ concat (map (transition_stats_calls conventions atof) rows))
       \<and> (\<forall>fs \<in> set rows.
            (dle (atof (fs ! 6)) (Finite 10) \<longrightarrow>
               transition_stats_calls conventions atof fs = [])
          \<and> (dgt (atof (fs ! 6)) (Finite 10) \<longrightarrow>
               transition_stats_calls conventions atof fs =
                 [SetNormalTransitionProbabilityMeansAndVariances
                    (GetChestTypeValueFromName conventions (fs ! 0))
                    (GetChestTypeValueFromName conventions (fs ! 1))
                    (atof (fs ! 2)) (dmul (atof (fs ! 3)) (atof (fs ! 3)))
                    (atof (fs ! 4)) (dmul (atof (fs ! 5)) (atof (fs ! 5)))]))"
  using SetTransitionProbabilityStatsFromFile_rows[OF assms, of conventions atof garbage calls]
    dle_not_dgt
  by (auto simp: transition_stats_calls_def)

theorem transition_stats_sample_count_witness:
  "newline \<notin> set ''from,to,scaleMean,scaleStd,angleMean,angleStd,n''
   \<and> length ''from,to,scaleMean,scaleStd,angleMean,angleStd,n'' < 100000
   \<and> list_all (plain_row 7) example_stats_rows
   \<and> newline \<notin> set ''AIRWAYGENERATION2,AIRWAYGENERATION3,1,1,1,1,50''
   \<and> length ''AIRWAYGENERATION2,AIRWAYGENERATION3,1,1,1,1,50'' < 100000
   \<and> SetTransitionProbabilityStatsFromFile example_conventions example_atof zero_garbage []
        (Some (''from,to,scaleMean,scaleStd,angleMean,angleStd,n'' @ newline #
               concat (map text_line example_stats_rows)
               @ ''AIRWAYGENERATION2,AIRWAYGENERATION3,1,1,1,1,50''))
      = Some [SetNormalTransitionProbabilityMeansAndVariances 0 0 (Finite 1) (Finite 4)
                (Finite 3) (Finite 16),
              SetNormalTransitionProbabilityMeansAndVariances 39 40 (Finite 9) (Finite 4)
                (Finite 8) (Finite 9)]
   \<and> dle (example_atof ([''AIRWAYGENERATION0'', ''AIRWAYGENERATION1'', ''5'', ''6'', ''7'',
                          ''8'', ''10''] ! 6)) (Finite 10)
   \<and> transition_stats_calls example_conventions example_atof
        [''AIRWAYGENERATION0'', ''AIRWAYGENERATION1'', ''5'', ''6'', ''7'', ''8'', ''10''] = []"
proof -
  have h: "newline \<notin> set ''from,to,scaleMean,scaleStd,angleMean,angleStd,n''"
    "length ''from,to,scaleMean,scaleStd,angleMean,angleStd,n'' < 100000"
    by (simp_all add: newline_def)
  have r: "newline \<notin> set ''AIRWAYGENERATION2,AIRWAYGENERATION3,1,1,1,1,50''"
    "length ''AIRWAYGENERATION2,AIRWAYGENERATION3,1,1,1,1,50'' < 100000"
    by (simp_all add: newline_def)
  have d: "dle (example_atof ([''AIRWAYGENERATION0'', ''AIRWAYGENERATION1'', ''5'', ''6'',
                 ''7'', ''8'', ''10''] ! 6)) (Finite 10)"
    by (simp add: example_atof_def)
  have m: "[''AIRWAYGENERATION0'', ''AIRWAYGENERATION1'', ''5'', ''6'', ''7'', ''8'', ''10'']
             \<in> set example_stats_rows"
    by (simp add: example_stats_rows_def)
  note t = transition_stats_sample_count[OF h example_stats_rows_plain r,
      where conventions = example_conventions and atof = example_atof
        and garbage = zero_garbage and calls = "[]"]
  from t have a: "SetTransitionProbabilityStatsFromFile example_conventions example_atof
        zero_garbage []
        (Some (''from,to,scaleMean,scaleStd,angleMean,angleStd,n'' @ newline #
               concat (map text_line example_stats_rows)
               @ ''AIRWAYGENERATION2,AIRWAYGENERATION3,1,1,1,1,50''))
      = Some (concat (map (transition_stats_calls example_conventions example_atof)
                example_stats_rows))"
    by simp
  from t m d have b: "transition_stats_calls example_conventions example_atof
        [''AIRWAYGENERATION0'', ''AIRWAYGENERATION1'', ''5'', ''6'', ''7'', ''8'', ''10''] = []"
    by blast
  show ?thesis
    using h r example_stats_rows_plain d a b by (simp only: example_stats_calls list_all_iff) simp
qed

text \<open>
  C8 as stated fails for a last row that has no newline behind it: its sample count is 11,
  greater than 10, and no call is made for it.
\<close>

theorem transition_stats_sample_count_counterexample:
  "dgt (example_atof ''11'') (Finite 10)
   \<and> SetTransitionProbabilityStatsFromFile example_conventions example_atof zero_garbage []
        (Some (''from,to,scaleMean,scaleStd,angleMean,angleStd,n\<newline>'' @
               ''AIRWAYGENERATION0,AIRWAYGENERATION1,1,2,3,4,11''))
      = Some []"
proof -
  have h: "newline \<notin> set ''from,to,scaleMean,scaleStd,angleMean,angleStd,n''"
    "length ''from,to,scaleMean,scaleStd,angleMean,angleStd,n'' < 100000"
    by (simp_all add: newline_def)
  have r: "newline \<notin> set ''AIRWAYGENERATION0,AIRWAYGENERATION1,1,2,3,4,11''"
    "length ''AIRWAYGENERATION0,AIRWAYGENERATION1,1,2,3,4,11'' < 100000"
    by (simp_all add: newline_def)
  have e: "\<forall>fs \<in> set []. plain_row 7 fs" by simp
  have f: "''from,to,scaleMean,scaleStd,angleMean,angleStd,n\<newline>'' @
               ''AIRWAYGENERATION0,AIRWAYGENERATION1,1,2,3,4,11''
         = ''from,to,scaleMean,scaleStd,angleMean,angleStd,n'' @ newline #
             concat (map text_line []) @ ''AIRWAYGENERATION0,AIRWAYGENERATION1,1,2,3,4,11''"
    by (simp add: newline_def)
  show ?thesis
    using SetTransitionProbabilityStatsFromFile_rows[OF h e r,
        of example_conventions example_atof zero_garbage "[]"]
    unfolding f[symmetric]
    by (simp add: example_atof_def)
qed

text \<open>
  C9. The matrix of the diagnostic mode has ten rows and ten columns, not eleven: a
  particle labelled generation 10 (type 48) as input or as output is counted outside the
  matrix, and what is printed for a particle of generations 9 and 0 is ten lines of ten
  numbers.
\<close>

theorem confusion_matrix_is_ten_by_ten:
  "printDiceScores_confusionMatrix [(48, 48)] = None
   \<and> printDiceScores_confusionMatrix [(38, 48)] = None
   \<and> map_option (map length) (printDiceScores_confusionMatrix [(47, 38)])
       = Some [10, 10, 10, 10, 10, 10, 10, 10, 10, 10]"
  by (simp add: printDiceScores_confusionMatrix_def confusionMatrix_init_def
      confusionMatrix_count_def confusionMatrix_print_def upt_10 Let_def)



lemma transition_row_calls_plain:
  assumes "atof (fs ! 0 @ [comma]) = atof (fs ! 0)"
  shows "transition_row_calls atof i fs =
           map (\<lambda>j. SetTransitionProbability (of_nat i + 38) (of_nat j + 38) (atof (fs ! j)))
             [0..<11]"
  unfolding transition_row_calls_def
  by (rule map_cong) (use assms in auto)

lemma example_grid_plain:
  "\<forall>fs \<in> set example_grid.
     plain_row 11 fs \<and> example_atof (fs ! 0 @ [comma]) = example_atof (fs ! 0)"
  by (simp add: example_grid_def plain_row_def plain_field_def comma_def NUL_def newline_def
      example_atof_def)

text \<open>
  C7. \<^verbatim>\<open>SetTransitionProbabilitiesFromFile\<close> reads the file as an 11 by 11 grid without
  a header line. Whatever the file holds, it makes exactly 121 calls of
  \<^verbatim>\<open>SetTransitionProbability\<close>, one for each pair of the types \<open>38+i\<close> and \<open>38+j\<close>,
  \<open>i\<close> and \<open>j\<close> from 0 to 10, row by row. For a file of eleven plain rows of at least
  eleven columns (the last row with or without its newline), the value passed for
  \<open>(i, j)\<close> is \<^verbatim>\<open>atof\<close> of the text at grid position \<open>(i, j)\<close>, and the store of direct
  transition probabilities gives back exactly that value for the pair. The text the code
  converts for column 0 still has its comma; \<^verbatim>\<open>atof\<close> is taken to stop in front of it.
  That the rows sum to 1 is not needed.
\<close>

theorem transition_probabilities_grid:
  assumes "length grid = 11"
    and "\<forall>fs \<in> set grid. plain_row 11 fs \<and> atof (fs ! 0 @ [comma]) = atof (fs ! 0)"
    and "tail = [] \<or> hd tail = newline"
  shows "map transition_types
           (SetTransitionProbabilitiesFromFile atof garbage [] fileContent)
         = concat (map (\<lambda>i. map (\<lambda>j. Some (of_nat i + 38, of_nat j + 38)) [0..<11]) [0..<11])
       \<and> length (SetTransitionProbabilitiesFromFile atof garbage [] fileContent) = 121
       \<and> SetTransitionProbabilitiesFromFile atof garbage []
           (Some (concat (map text_line (butlast grid)) @ join_fields (last grid) @ tail))
         = concat (map (\<lambda>i. map (\<lambda>j. SetTransitionProbability (of_nat i + 38) (of_nat j + 38)
                                        (atof (grid ! i ! j))) [0..<11]) [0..<11])
       \<and> (\<forall>i j. i \<le> 10 \<and> j \<le> 10 \<longrightarrow>
            transitionLikelihood_direct
              (SetTransitionProbabilitiesFromFile atof garbage []
                 (Some (concat (map text_line (butlast grid)) @ join_fields (last grid) @ tail)))
              (of_nat i + 38) (of_nat j + 38)
            = Some (atof (grid ! i ! j)))"
proof -
  have rows: "\<forall>fs \<in> set grid. plain_row 11 fs" using assms(2) by blast
  have t: "map transition_types
           (SetTransitionProbabilitiesFromFile atof garbage [] fileContent)
         = concat (map (\<lambda>i. map (\<lambda>j. Some (of_nat i + 38, of_nat j + 38)) [0..<11]) [0..<11])"
    unfolding SetTransitionProbabilitiesFromFile_def
    by (subst transition_rows_types) simp_all
  have n: "length (SetTransitionProbabilitiesFromFile atof garbage [] fileContent) = 121"
    using length_SetTransitionProbabilitiesFromFile[of atof garbage "[]" fileContent] by simp
  have m: "map (\<lambda>i. transition_row_calls atof i (grid ! i)) [0..<11]
         = map (\<lambda>i. map (\<lambda>j. SetTransitionProbability (of_nat i + 38) (of_nat j + 38)
                                 (atof (grid ! i ! j))) [0..<11]) [0..<11]"
  proof (rule map_cong)
    fix i assume "i \<in> set [0..<11]"
    then have "grid ! i \<in> set grid" using assms(1) by simp
    with assms(2) have "atof (grid ! i ! 0 @ [comma]) = atof (grid ! i ! 0)" by blast
    then show "transition_row_calls atof i (grid ! i)
        = map (\<lambda>j. SetTransitionProbability (of_nat i + 38) (of_nat j + 38)
                     (atof (grid ! i ! j))) [0..<11]"
      by (rule transition_row_calls_plain)
  qed simp
  have g: "SetTransitionProbabilitiesFromFile atof garbage []
           (Some (concat (map text_line (butlast grid)) @ join_fields (last grid) @ tail))
         = concat (map (\<lambda>i. map (\<lambda>j. SetTransitionProbability (of_nat i + 38) (of_nat j + 38)
                                        (atof (grid ! i ! j))) [0..<11]) [0..<11])"
    using SetTransitionProbabilitiesFromFile_grid[OF assms(1) rows assms(3), of atof garbage "[]"]
    unfolding m by simp
  have l: "transitionLikelihood_direct
              (SetTransitionProbabilitiesFromFile atof garbage []
                 (Some (concat (map text_line (butlast grid)) @ join_fields (last grid) @ tail)))
              (of_nat i + 38) (of_nat j + 38)
            = Some (atof (grid ! i ! j))" if "i \<le> 10" "j \<le> 10" for i j
    unfolding g transitionLikelihood_direct_def
    using grid_lookup[OF that, of "\<lambda>i j. atof (grid ! i ! j)"] .
  from t n g l show ?thesis by blast
qed

theorem transition_probabilities_grid_witness:
  "length example_grid = 11
   \<and> list_all (\<lambda>fs. plain_row 11 fs
                  \<and> example_atof (fs ! 0 @ [comma]) = example_atof (fs ! 0)) example_grid
   \<and> length (SetTransitionProbabilitiesFromFile example_atof zero_garbage []
        (Some (concat (map text_line (butlast example_grid))
               @ join_fields (last example_grid) @ []))) = 121
   \<and> transitionLikelihood_direct
        (SetTransitionProbabilitiesFromFile example_atof zero_garbage []
           (Some (concat (map text_line (butlast example_grid))
                  @ join_fields (last example_grid) @ [])))
        40 40 = Some (Finite 1)
   \<and> transitionLikelihood_direct
        (SetTransitionProbabilitiesFromFile example_atof zero_garbage []
           (Some (concat (map text_line (butlast example_grid))
                  @ join_fields (last example_grid) @ [])))
        40 48 = Some (Finite 0)"
proof -
  let ?file = "Some (concat (map text_line (butlast example_grid))
               @ join_fields (last example_grid) @ [])"
  have n: "length example_grid = 11" by (simp add: example_grid_def)
  have t: "([] :: char list) = [] \<or> hd ([] :: char list) = newline" by simp
  note g = transition_probabilities_grid[OF n example_grid_plain t,
      where garbage = zero_garbage and fileContent = ?file]
  have p: "list_all (\<lambda>fs. plain_row 11 fs
                  \<and> example_atof (fs ! 0 @ [comma]) = example_atof (fs ! 0)) example_grid"
    using example_grid_plain unfolding list_all_iff .
  have c22: "example_atof (example_grid ! 2 ! 2) = Finite 1"
    and c210: "example_atof (example_grid ! 2 ! 10) = Finite 0"
    by (simp_all add: example_grid_def example_atof_def)
  have k: "(of_nat 2 + 38 :: 8 word) = 40" "(of_nat 10 + 38 :: 8 word) = 48" by simp_all
  from g have l: "length (SetTransitionProbabilitiesFromFile example_atof zero_garbage []
        ?file) = 121"
    by (rule conjunct1[OF conjunct2])
  from g have q: "\<forall>i j. i \<le> 10 \<and> j \<le> 10 \<longrightarrow>
        transitionLikelihood_direct
          (SetTransitionProbabilitiesFromFile example_atof zero_garbage [] ?file)
          (of_nat i + 38) (of_nat j + 38) = Some (example_atof (example_grid ! i ! j))"
    by (rule conjunct2[OF conjunct2[OF conjunct2]])
  have le: "(2::nat) \<le> 10 \<and> (2::nat) \<le> 10" "(2::nat) \<le> 10 \<and> (10::nat) \<le> 10" by simp_all
  have a: "transitionLikelihood_direct
        (SetTransitionProbabilitiesFromFile example_atof zero_garbage [] ?file)
        40 40 = Some (Finite 1)"
    using q[THEN spec, THEN spec, THEN mp, OF le(1)] unfolding k c22 .
  have b: "transitionLikelihood_direct
        (SetTransitionProbabilitiesFromFile example_atof zero_garbage [] ?file)
        40 48 = Some (Finite 0)"
    using q[THEN spec, THEN spec, THEN mp, OF le(2)] unfolding k c210 .
  from n p l a b show ?thesis by (intro conjI)
qed

end
